theory Spec2Isabelle
  imports Main "HOL-Library.Log_Nat" "HOL-Library.AList" "HOL-Library.Multiset"
begin

section \<open>Data model of the relay server (backend/server.js, backend/store/typingRooms.js)\<close>

text \<open>
  Strings are JavaScript strings: sequences of code units, written here as \<open>string\<close>;
  \<open>length\<close> is \<open>.length\<close>, \<open>take n\<close> is \<open>.slice(0, n)\<close> and \<open>!\<close> is indexing inside the
  bounds. Timestamps are the integer milliseconds of \<open>Date.now()\<close>. A field that holds
  either \<open>null\<close> or a number is an \<open>int option\<close>; JavaScript treats both \<open>null\<close> and the
  number \<open>0\<close> as false in a condition, which \<open>truthy\<close> writes out.
\<close>

definition truthy :: "int option \<Rightarrow> bool" where
  "truthy t = (case t of None \<Rightarrow> False | Some n \<Rightarrow> n \<noteq> 0)"

definition TYPING_TIME_LIMIT_SECONDS :: int where
  "TYPING_TIME_LIMIT_SECONDS = 60"

definition TYPING_TIME_LIMIT_MS :: int where
  "TYPING_TIME_LIMIT_MS = TYPING_TIME_LIMIT_SECONDS * 1000"

subsection \<open>computeScore\<close>

text \<open>
  The \<open>for\<close> loop of \<open>computeScore\<close>, with the loop variable \<open>i\<close> and the two counters as
  arguments. \<open>target[i]\<close> is \<open>undefined\<close> exactly when \<open>i\<close> is not below \<open>target.length\<close>.
\<close>

function computeScore_loop :: "string \<Rightarrow> string \<Rightarrow> nat \<Rightarrow> int \<Rightarrow> nat \<Rightarrow> int \<times> nat" where
  "computeScore_loop target typed i score correctChars =
     (if i < length typed then
        (if length target \<le> i then
           computeScore_loop target typed (i + 1) (score - 1) correctChars
         else if typed ! i = target ! i then
           computeScore_loop target typed (i + 1) (score + 1) (correctChars + 1)
         else
           computeScore_loop target typed (i + 1) (score - 1) correctChars)
      else (score, correctChars))"
  by pat_completeness auto
termination
  by (relation "measure (\<lambda>(target, typed, i, score, correctChars). length typed - i)") auto

declare computeScore_loop.simps [simp del]

text \<open>
  \<open>referenceText || ''\<close> and \<open>typeof inputValue === 'string' ? inputValue : ''\<close>: an argument
  that is missing or not a string is \<open>None\<close> and counts as the empty string. The result is
  the object \<open>{score, correctChars, typedLength}\<close> as a triple.
\<close>

definition computeScore :: "string option \<Rightarrow> string option \<Rightarrow> int \<times> nat \<times> nat" where
  "computeScore referenceText inputValue =
     (let target = (case referenceText of None \<Rightarrow> [] | Some t \<Rightarrow> t);
          typed = (case inputValue of None \<Rightarrow> [] | Some v \<Rightarrow> v);
          (score, correctChars) = computeScore_loop target typed 0 0 0
      in (score, correctChars, length typed))"

text \<open>
  The scoring rule in the words of the specification: over the positions of the typed
  value, a position whose character equals the prompt's adds one, a position whose
  character differs subtracts one, and a position beyond the prompt subtracts one.
\<close>

definition matched_positions :: "string \<Rightarrow> string \<Rightarrow> nat list" where
  "matched_positions prompt typed =
     filter (\<lambda>i. i < length prompt \<and> typed ! i = prompt ! i) [0..<length typed]"

definition mismatched_positions :: "string \<Rightarrow> string \<Rightarrow> nat list" where
  "mismatched_positions prompt typed =
     filter (\<lambda>i. i < length prompt \<and> typed ! i \<noteq> prompt ! i) [0..<length typed]"

definition excess_positions :: "string \<Rightarrow> string \<Rightarrow> nat list" where
  "excess_positions prompt typed = filter (\<lambda>i. length prompt \<le> i) [0..<length typed]"

definition spec_score :: "string \<Rightarrow> string \<Rightarrow> int" where
  "spec_score prompt typed =
     int (length (matched_positions prompt typed))
     - int (length (mismatched_positions prompt typed))
     - int (length (excess_positions prompt typed))"

subsection \<open>Numbers: the division of \<open>charsPerSecond\<close>\<close>

text \<open>
  JavaScript numbers are IEEE 754 binary64 values and \<open>/\<close> rounds the exact quotient to the
  nearest one, ties to the even significand. A binary64 value is a rational; \<open>double_of\<close>
  rounds a non-negative rational to 53 significant bits. It is the value of the division
  for operands whose quotient is zero or in the normal range, which covers every quotient
  computed by \<open>handleTypingUpdate\<close> (a millisecond count divided by 1000, and a string
  length divided by that).
\<close>

definition round_ties_even :: "rat \<Rightarrow> int" where
  "round_ties_even x =
     (let n = \<lfloor>x\<rfloor>; r = x - of_int n
      in if r < 1 / 2 then n else if 1 / 2 < r then n + 1 else if even n then n else n + 1)"

text \<open>The binary exponent \<open>e\<close> of a positive rational: \<open>2 ^ e \<le> x < 2 ^ (e + 1)\<close>.\<close>

definition binade :: "rat \<Rightarrow> int" where
  "binade x =
     (let (a, b) = quotient_of x; e = bitlen a - bitlen b
      in if 2 powi e \<le> x then e else e - 1)"

definition double_of :: "rat \<Rightarrow> rat" where
  "double_of x =
     (if x = 0 then 0
      else let ulp = 2 powi (binade x - 52) in of_int (round_ties_even (x / ulp)) * ulp)"

definition js_divide :: "rat \<Rightarrow> rat \<Rightarrow> rat" where
  "js_divide x y = double_of (x / y)"

subsection \<open>Strings: \<open>trim\<close>, \<open>toUpperCase\<close>, the username pattern\<close>

text \<open>
  \<open>trim\<close> removes white space at both ends; among the code units that \<open>char\<close> has, these
  are tab, line feed, vertical tab, form feed, carriage return, space and no-break space.
  \<open>toUpperCase\<close> is written for the letters a to z, which is all the room codes and the
  claims below use; other code units are left as they are.
\<close>

definition is_space :: "char \<Rightarrow> bool" where
  "is_space c = (of_char c \<in> {9, 10, 11, 12, 13, 32, 160 :: nat})"

definition trim :: "string \<Rightarrow> string" where
  "trim s = rev (dropWhile is_space (rev (dropWhile is_space s)))"

definition toUpperCase :: "string \<Rightarrow> string" where
  "toUpperCase s =
     map (\<lambda>c. if 97 \<le> (of_char c :: nat) \<and> (of_char c :: nat) \<le> 122
              then char_of (of_char c - 32 :: nat) else c) s"

text \<open>\<open>(roomId || '').trim().toUpperCase()\<close>; a missing id is \<open>None\<close>.\<close>

definition normalizeRoomId :: "string option \<Rightarrow> string" where
  "normalizeRoomId roomId = toUpperCase (trim (case roomId of None \<Rightarrow> [] | Some r \<Rightarrow> r))"

definition MIN_USERNAME_LENGTH :: nat where
  "MIN_USERNAME_LENGTH = 3"

definition MAX_USERNAME_LENGTH :: nat where
  "MAX_USERNAME_LENGTH = 15"

text \<open>One character of the class \<open>[a-zA-Z0-9 _-]\<close>.\<close>

definition username_char :: "char \<Rightarrow> bool" where
  "username_char c =
     (let n = (of_char c :: nat)
      in (97 \<le> n \<and> n \<le> 122) \<or> (65 \<le> n \<and> n \<le> 90) \<or> (48 \<le> n \<and> n \<le> 57)
         \<or> n = 32 \<or> n = 95 \<or> n = 45)"

definition USERNAME_PATTERN :: "string \<Rightarrow> bool" where
  "USERNAME_PATTERN s = (s \<noteq> [] \<and> list_all username_char s)"

definition sanitizeUsername :: "string option \<Rightarrow> string option" where
  "sanitizeUsername rawUsername =
     (let trimmed = trim (case rawUsername of None \<Rightarrow> [] | Some u \<Rightarrow> u)
      in if length trimmed < MIN_USERNAME_LENGTH \<or> MAX_USERNAME_LENGTH < length trimmed then None
         else if \<not> USERNAME_PATTERN trimmed then None
         else Some trimmed)"

subsection \<open>Participants, rooms and the server state\<close>

record participant =
  socketId :: string
  username :: string
  score :: int
  typedLength :: nat
  correctChars :: nat
  lastInputLength :: nat
  lastInputValue :: string
  lastUpdateAt :: int
  isCompleted :: bool
  completionTime :: "int option"
  flags :: "string list"
  isFlagged :: bool
  startedAt :: "int option"
  expiresAt :: "int option"
  isTimeUp :: bool

text \<open>The entry of \<open>room.voiceParticipants\<close>: \<open>{socketId, username, joinedAt}\<close>.\<close>

record voice_participant =
  vp_socketId :: string
  vp_username :: string
  joinedAt :: int

text \<open>
  A JavaScript \<open>Map\<close> keeps its keys in insertion order, and \<open>set\<close> on a key that is
  present replaces the value where it stands: an association list with \<open>map_of\<close> for
  \<open>get\<close>, \<open>AList.update\<close> for \<open>set\<close> and \<open>AList.delete\<close> for \<open>delete\<close>. The room object of
  \<open>createTypingRoom\<close>: \<open>roomText\<close> is its field \<open>text\<close>, and its \<open>createdAt\<close>, which the
  socket handlers never read, is left out.
\<close>

record typing_room =
  roomId :: string
  roomText :: string
  users :: "(string \<times> participant) list"
  voiceParticipants :: "(string \<times> voice_participant) list"

text \<open>A document of the \<open>Room\<close> collection (models/Room.js), without \<open>createdAt\<close>.\<close>

record room_document =
  doc_roomId :: string
  doc_users :: "string list"
  doc_isActive :: bool

text \<open>
  The module-level state of server.js and of the store, the \<open>Room\<close> collection keyed by
  its unique \<open>roomId\<close>, and for every socket the set of socket.io rooms it has joined
  with \<open>socket.join\<close>.
\<close>

record server_state =
  socketRoomMap :: "string \<rightharpoonup> string"
  typingSocketRoomMap :: "string \<rightharpoonup> string"
  typingRooms :: "string \<rightharpoonup> typing_room"
  Room :: "string \<rightharpoonup> room_document"
  channels :: "string \<Rightarrow> string set"

subsection \<open>Messages\<close>

text \<open>The object built for each user by \<open>emitTypingRoomState\<close>.\<close>

record leaderboard_entry =
  lb_socketId :: string
  lb_username :: string
  lb_score :: int
  lb_isCompleted :: bool
  lb_completionTime :: "int option"
  lb_flags :: "string list"
  lb_isFlagged :: bool
  lb_isTimeUp :: bool
  lb_startedAt :: "int option"
  lb_expiresAt :: "int option"

text \<open>
  An offer, an answer or a candidate is an object the server never looks into; being an
  object it is true in a condition. A field that is absent is \<open>None\<close>.
\<close>

datatype signal_data = SignalData string

record signal_payload =
  targetId :: "string option"
  offer :: "signal_data option"
  answer :: "signal_data option"
  candidate :: "signal_data option"

record join_typing_payload =
  jp_roomId :: "string option"
  jp_username :: "string option"

text \<open>
  The payload of \<open>typing-update\<close>: \<open>value\<close> when it is a string, whether \<open>isPaste\<close> is true
  in a condition, and \<open>delta\<close> when it is a number (the client sends a difference of two
  lengths).
\<close>

record typing_update_payload =
  tu_value :: "string option"
  tu_isPaste :: bool
  tu_delta :: "int option"

text \<open>
  \<open>socket.emit\<close> reaches the socket itself, \<open>io.to(r).emit\<close> every socket in the socket.io
  room \<open>r\<close> (each socket is alone in the room named by its own id), and
  \<open>socket.to(r).emit\<close> every socket in \<open>r\<close> but the sender.
\<close>

datatype recipient = ToSocket string | ToRoom string | ToRoomExcept string string

datatype payload =
    ErrorMessage string
  | UsersUpdate string nat
  | Leaderboard string "leaderboard_entry list"
  | RoomReady string string int
  | UserFinished string string int
  | UserTimeUp string string
  | VoiceParticipants string "voice_participant list"
  | VoiceUserJoined string string
  | VoiceUserLeft string
  | TypingSignal string "signal_data option" "signal_data option" "signal_data option"
  | CanvasSignal string signal_data
  | ExistingUsers string "string list"
  | MemberNotice string string
  | UserCount string nat
  | Forwarded string string
  | CanvasCleared string string

datatype emission = Emit recipient string payload

definition typing_channel :: "string \<Rightarrow> string" where
  "typing_channel r = ''typing:'' @ r"

subsection \<open>flagUser and the leaderboard\<close>

definition flagUser :: "participant \<Rightarrow> string \<Rightarrow> participant" where
  "flagUser user reason =
     user\<lparr>flags := (if reason \<in> set (flags user) then flags user else flags user @ [reason]),
          isFlagged := True\<rparr>"

text \<open>\<open>x || null\<close> for a field that holds \<open>null\<close> or a number.\<close>

definition or_null :: "int option \<Rightarrow> int option" where
  "or_null t = (if truthy t then t else None)"

text \<open>The number a field stands for in a subtraction, where \<open>null\<close> counts as 0.\<close>

definition number_of :: "int option \<Rightarrow> int" where
  "number_of t = (case t of None \<Rightarrow> 0 | Some n \<Rightarrow> n)"

definition leaderboardEntry :: "participant \<Rightarrow> leaderboard_entry" where
  "leaderboardEntry user =
     \<lparr>lb_socketId = socketId user,
      lb_username = username user,
      lb_score = score user,
      lb_isCompleted = isCompleted user,
      lb_completionTime = or_null (completionTime user),
      lb_flags = flags user,
      lb_isFlagged = isFlagged user,
      lb_isTimeUp = isTimeUp user,
      lb_startedAt = or_null (startedAt user),
      lb_expiresAt = or_null (expiresAt user)\<rparr>"

text \<open>
  The comparator handed to \<open>sort\<close>. \<open>String.prototype.localeCompare\<close> belongs to the
  runtime and its order to the host's locale, so it is the parameter \<open>localeCompare\<close>.
\<close>

definition leaderboardCompare ::
  "(string \<Rightarrow> string \<Rightarrow> int) \<Rightarrow> leaderboard_entry \<Rightarrow> leaderboard_entry \<Rightarrow> int" where
  "leaderboardCompare localeCompare a b =
     (if lb_score b \<noteq> lb_score a then lb_score b - lb_score a
      else if truthy (lb_completionTime a) \<and> truthy (lb_completionTime b)
        then number_of (lb_completionTime a) - number_of (lb_completionTime b)
      else if truthy (lb_completionTime a) then - 1
      else if truthy (lb_completionTime b) then 1
      else localeCompare (lb_username a) (lb_username b))"

text \<open>
  \<open>Array.prototype.sort\<close> with a comparator is a stable sort: an element goes before
  another when the comparator is negative, and elements that compare as equal keep the
  order they had. \<open>sortBy\<close> is the insertion sort with that behaviour.
\<close>

fun insertBy :: "('a \<Rightarrow> 'a \<Rightarrow> int) \<Rightarrow> 'a \<Rightarrow> 'a list \<Rightarrow> 'a list" where
  "insertBy cmp x [] = [x]"
| "insertBy cmp x (y # ys) = (if cmp x y \<le> 0 then x # y # ys else y # insertBy cmp x ys)"

fun sortBy :: "('a \<Rightarrow> 'a \<Rightarrow> int) \<Rightarrow> 'a list \<Rightarrow> 'a list" where
  "sortBy cmp [] = []"
| "sortBy cmp (x # xs) = insertBy cmp x (sortBy cmp xs)"

definition leaderboardOf :: "(string \<Rightarrow> string \<Rightarrow> int) \<Rightarrow> typing_room \<Rightarrow> leaderboard_entry list" where
  "leaderboardOf localeCompare room =
     sortBy (leaderboardCompare localeCompare) (map leaderboardEntry (map snd (users room)))"

definition emitTypingRoomState ::
  "(string \<Rightarrow> string \<Rightarrow> int) \<Rightarrow> server_state \<Rightarrow> string \<Rightarrow> emission list" where
  "emitTypingRoomState localeCompare st r =
     (case typingRooms st r of
        None \<Rightarrow> []
      | Some room \<Rightarrow>
          [Emit (ToRoom (typing_channel r)) ''typing-users-update''
             (UsersUpdate r (length (users room))),
           Emit (ToRoom (typing_channel r)) ''leaderboard-update''
             (Leaderboard r (leaderboardOf localeCompare room))])"

subsection \<open>Typing rooms: create, join, update, leave\<close>

text \<open>\<open>createTypingRoom\<close> of the store, called by \<open>POST /api/typing/create-room\<close>.\<close>

definition createTypingRoom :: "server_state \<Rightarrow> string \<Rightarrow> string \<Rightarrow> server_state" where
  "createTypingRoom st r txt =
     st\<lparr>typingRooms := (typingRooms st)
          (r \<mapsto> \<lparr>roomId = r, roomText = txt, users = [], voiceParticipants = []\<rparr>)\<rparr>"

definition handleJoinTypingRoom ::
  "(string \<Rightarrow> string \<Rightarrow> int) \<Rightarrow> server_state \<Rightarrow> string \<Rightarrow> join_typing_payload \<Rightarrow> int
     \<Rightarrow> server_state \<times> emission list" where
  "handleJoinTypingRoom localeCompare st socket payload now =
     (let r = normalizeRoomId (jp_roomId payload)
      in if r = [] then
           (st, [Emit (ToSocket socket) ''typing-room-error'' (ErrorMessage ''Room ID is required'')])
         else
           (case typingRooms st r of
              None \<Rightarrow>
                (st, [Emit (ToSocket socket) ''typing-room-error''
                        (ErrorMessage ''Typing room not found'')])
            | Some room \<Rightarrow>
                (case sanitizeUsername (jp_username payload) of
                   None \<Rightarrow>
                     (st, [Emit (ToSocket socket) ''typing-room-error''
                             (ErrorMessage
                                ''Provide a valid name (3-15 characters, letters/numbers/space/-/_)'')])
                 | Some name \<Rightarrow>
                     (let existingUser = map_of (users room) socket;
                          user =
                            \<lparr>socketId = socket,
                             username = name,
                             score = (case existingUser of None \<Rightarrow> 0 | Some u \<Rightarrow> score u),
                             typedLength = (case existingUser of None \<Rightarrow> 0 | Some u \<Rightarrow> typedLength u),
                             correctChars = (case existingUser of None \<Rightarrow> 0 | Some u \<Rightarrow> correctChars u),
                             lastInputLength =
                               (case existingUser of None \<Rightarrow> 0 | Some u \<Rightarrow> lastInputLength u),
                             lastInputValue =
                               (case existingUser of None \<Rightarrow> [] | Some u \<Rightarrow> lastInputValue u),
                             lastUpdateAt = now,
                             isCompleted = (case existingUser of None \<Rightarrow> False | Some u \<Rightarrow> isCompleted u),
                             completionTime =
                               (case existingUser of None \<Rightarrow> None | Some u \<Rightarrow> or_null (completionTime u)),
                             flags = (case existingUser of None \<Rightarrow> [] | Some u \<Rightarrow> flags u),
                             isFlagged = (case existingUser of None \<Rightarrow> False | Some u \<Rightarrow> isFlagged u),
                             startedAt =
                               (case existingUser of None \<Rightarrow> None | Some u \<Rightarrow> or_null (startedAt u)),
                             expiresAt =
                               (case existingUser of None \<Rightarrow> None | Some u \<Rightarrow> or_null (expiresAt u)),
                             isTimeUp = (case existingUser of None \<Rightarrow> False | Some u \<Rightarrow> isTimeUp u)\<rparr>;
                          st' = st\<lparr>typingRooms := (typingRooms st)
                                     (r \<mapsto> room\<lparr>users := AList.update socket user (users room)\<rparr>),
                                   typingSocketRoomMap := (typingSocketRoomMap st)(socket \<mapsto> r),
                                   channels := (channels st)
                                     (socket := insert (typing_channel r) (channels st socket))\<rparr>
                      in (st', Emit (ToSocket socket) ''typing-room-ready''
                                 (RoomReady r (roomText room) TYPING_TIME_LIMIT_SECONDS)
                               # emitTypingRoomState localeCompare st' r)))))"

text \<open>
  Lines 302 to 352 of \<open>handleTypingUpdate\<close>: what one input does to the participant's
  object. The conditions of its \<open>if\<close> statements are named first.
  \<open>lastUpdateAt\<close> is a number on every participant (\<open>handleJoinTypingRoom\<close> stores
  \<open>Date.now()\<close> there), so \<open>timeDelta\<close> is never \<open>null\<close>.
\<close>

text \<open>Lines 302 and 303: \<open>rawValue\<close>, cut to the prompt's length plus 200.\<close>

definition rawValueOf :: "typing_update_payload \<Rightarrow> string" where
  "rawValueOf payload = (case tu_value payload of None \<Rightarrow> [] | Some v \<Rightarrow> v)"

definition safeValueOf :: "string \<Rightarrow> typing_update_payload \<Rightarrow> string" where
  "safeValueOf txt payload = take (length txt + 200) (rawValueOf payload)"

text \<open>Lines 306 to 309: the first input starts the participant's clock.\<close>

definition startClock :: "participant \<Rightarrow> int \<Rightarrow> participant" where
  "startClock user now =
     (if \<not> truthy (startedAt user)
      then user\<lparr>startedAt := Some now, expiresAt := Some (now + TYPING_TIME_LIMIT_MS)\<rparr>
      else user)"

text \<open>Lines 310 and 311: \<open>timeRemaining\<close> and \<open>expiredThisUpdate\<close>.\<close>

definition expiredThisUpdate :: "participant \<Rightarrow> int \<Rightarrow> bool" where
  "expiredThisUpdate user now =
     (let timeRemaining = (if truthy (expiresAt user) then number_of (expiresAt user) - now
                           else TYPING_TIME_LIMIT_MS)
      in timeRemaining \<le> 0)"

text \<open>Line 315: the condition on \<open>payload.isPaste\<close>, \<open>lengthDelta\<close> and \<open>timeDelta\<close>.\<close>

definition pasteSuspected :: "bool \<Rightarrow> int \<Rightarrow> int \<Rightarrow> bool" where
  "pasteSuspected paste lengthDelta timeDelta =
     ((paste \<and> 10 \<le> lengthDelta) \<or> (\<not> paste \<and> 10 \<le> lengthDelta \<and> timeDelta < 400))"

text \<open>Lines 319 to 321: \<open>timeDelta && timeDelta > 0\<close> and \<open>charsPerSecond > 15\<close>.\<close>

definition tooFast :: "int \<Rightarrow> int \<Rightarrow> bool" where
  "tooFast lengthDelta timeDelta =
     (timeDelta \<noteq> 0 \<and> 0 < timeDelta
      \<and> (let charsPerSecond =
                 js_divide (of_int \<bar>lengthDelta\<bar>) (js_divide (of_int timeDelta) 1000)
         in 15 < charsPerSecond))"

text \<open>Line 326: \<open>typeof payload.delta === 'number' && payload.delta >= 10\<close>.\<close>

definition deltaReported :: "int option \<Rightarrow> bool" where
  "deltaReported d = (case d of None \<Rightarrow> False | Some n \<Rightarrow> 10 \<le> n)"

definition applyTypingUpdate ::
  "string \<Rightarrow> participant \<Rightarrow> typing_update_payload \<Rightarrow> int \<Rightarrow> participant \<times> bool \<times> bool" where
  "applyTypingUpdate txt user payload now =
     (let safeValue = safeValueOf txt payload;
          previousLength = lastInputLength user;
          user = startClock user now;
          expired = expiredThisUpdate user now;
          lengthDelta = int (length safeValue) - int previousLength;
          timeDelta = now - lastUpdateAt user;
          user = (if pasteSuspected (tu_isPaste payload) lengthDelta timeDelta
                  then flagUser user ''paste-detected'' else user);
          user = (if tooFast lengthDelta timeDelta then flagUser user ''speed-warning'' else user);
          user = (if deltaReported (tu_delta payload)
                  then flagUser user ''paste-detected'' else user);
          (score', correctChars', typedLength') = computeScore (Some txt) (Some safeValue);
          user = user\<lparr>score := score', correctChars := correctChars', typedLength := typedLength',
                      lastInputLength := typedLength', lastInputValue := safeValue,
                      lastUpdateAt := now\<rparr>;
          finished = (\<not> isCompleted user \<and> length txt \<le> typedLength' \<and> 0 < length txt);
          user = (if finished then user\<lparr>isCompleted := True, completionTime := Some now\<rparr> else user);
          timedOut = (expired \<and> \<not> isTimeUp user);
          user = (if timedOut then user\<lparr>isTimeUp := True\<rparr> else user)
      in (user, finished, timedOut))"

definition handleTypingUpdate ::
  "(string \<Rightarrow> string \<Rightarrow> int) \<Rightarrow> server_state \<Rightarrow> string \<Rightarrow> typing_update_payload \<Rightarrow> int
     \<Rightarrow> server_state \<times> emission list" where
  "handleTypingUpdate localeCompare st socket payload now =
     (case typingSocketRoomMap st socket of
        None \<Rightarrow> (st, [])
      | Some r \<Rightarrow>
          if r = [] then (st, [])
          else
            (case typingRooms st r of
               None \<Rightarrow> (st\<lparr>typingSocketRoomMap := (typingSocketRoomMap st)(socket := None)\<rparr>, [])
             | Some room \<Rightarrow>
                 (case map_of (users room) socket of
                    None \<Rightarrow> (st, [])
                  | Some user \<Rightarrow>
                      if isCompleted user \<or> isTimeUp user then (st, [])
                      else
                        (let (user', finished, timedOut) =
                               applyTypingUpdate (roomText room) user payload now;
                             st' = st\<lparr>typingRooms := (typingRooms st)
                                        (r \<mapsto> room\<lparr>users := AList.update socket user' (users room)\<rparr>)\<rparr>
                         in (st',
                             (if finished
                              then [Emit (ToRoom (typing_channel r)) ''user-finished''
                                      (UserFinished r (username user') now)]
                              else [])
                             @ (if timedOut
                                then [Emit (ToSocket socket) ''typing-timeup''
                                        (UserTimeUp r (username user')),
                                      Emit (ToRoomExcept (typing_channel r) socket) ''user-timeup''
                                        (UserTimeUp r (username user'))]
                                else [])
                             @ emitTypingRoomState localeCompare st' r)))))"

subsection \<open>Voice in typing rooms\<close>

definition resolveTypingContext ::
  "server_state \<Rightarrow> string \<Rightarrow> string option \<Rightarrow> (string \<times> typing_room) option" where
  "resolveTypingContext st socket roomIdOverride =
     (let found = (case roomIdOverride of
                     None \<Rightarrow> typingSocketRoomMap st socket
                   | Some r \<Rightarrow> if r \<noteq> [] then Some r else typingSocketRoomMap st socket)
      in case found of
           None \<Rightarrow> None
         | Some r \<Rightarrow>
             if r = [] then None
             else (case typingRooms st r of None \<Rightarrow> None | Some room \<Rightarrow> Some (r, room)))"

definition voice_error :: "string \<Rightarrow> emission" where
  "voice_error socket =
     Emit (ToSocket socket) ''voice-error''
       (ErrorMessage ''Join the typing room before enabling voice chat.'')"

definition handleJoinTypingVoice :: "server_state \<Rightarrow> string \<Rightarrow> int \<Rightarrow> server_state \<times> emission list" where
  "handleJoinTypingVoice st socket now =
     (case resolveTypingContext st socket None of
        None \<Rightarrow> (st, [voice_error socket])
      | Some (r, room) \<Rightarrow>
          (case map_of (users room) socket of
             None \<Rightarrow> (st, [voice_error socket])
           | Some user \<Rightarrow>
               (let wasAlreadyPresent = (map_of (voiceParticipants room) socket \<noteq> None);
                    existingParticipants =
                      AList.update socket
                        \<lparr>vp_socketId = socket, vp_username = username user, joinedAt = now\<rparr>
                        (voiceParticipants room);
                    peers = filter (\<lambda>participant. vp_socketId participant \<noteq> socket)
                              (map snd existingParticipants);
                    st' = st\<lparr>typingRooms := (typingRooms st)
                               (r \<mapsto> room\<lparr>voiceParticipants := existingParticipants\<rparr>)\<rparr>
                in (st',
                    Emit (ToSocket socket) ''voice-participants'' (VoiceParticipants r peers)
                    # (if \<not> wasAlreadyPresent
                       then [Emit (ToRoomExcept (typing_channel r) socket) ''voice-user-joined''
                               (VoiceUserJoined socket (username user))]
                       else [])))))"

definition handleLeaveTypingVoice ::
  "server_state \<Rightarrow> string \<Rightarrow> string option \<Rightarrow> bool \<Rightarrow> server_state \<times> emission list" where
  "handleLeaveTypingVoice st socket roomIdOverride silent =
     (case resolveTypingContext st socket roomIdOverride of
        None \<Rightarrow> (st, [])
      | Some (r, room) \<Rightarrow>
          if map_of (voiceParticipants room) socket = None then (st, [])
          else
            (st\<lparr>typingRooms := (typingRooms st)
                  (r \<mapsto> room\<lparr>voiceParticipants := AList.delete socket (voiceParticipants room)\<rparr>)\<rparr>,
             [if silent
              then Emit (ToRoom (typing_channel r)) ''voice-user-left'' (VoiceUserLeft socket)
              else Emit (ToRoomExcept (typing_channel r) socket) ''voice-user-left''
                     (VoiceUserLeft socket)]))"

definition forwardTypingVoiceSignal ::
  "server_state \<Rightarrow> string \<Rightarrow> string \<Rightarrow> signal_payload \<Rightarrow> emission list" where
  "forwardTypingVoiceSignal st socket eventName payload =
     (case targetId payload of
        None \<Rightarrow> []
      | Some target \<Rightarrow>
          if target = [] then []
          else
            (case typingSocketRoomMap st socket of
               None \<Rightarrow> []
             | Some sourceRoomId \<Rightarrow>
                 if sourceRoomId = [] \<or> typingSocketRoomMap st target \<noteq> Some sourceRoomId then []
                 else [Emit (ToRoom target) eventName
                         (TypingSignal socket (offer payload) (answer payload) (candidate payload))]))"

definition handleLeaveTypingRoom ::
  "(string \<Rightarrow> string \<Rightarrow> int) \<Rightarrow> server_state \<Rightarrow> string \<Rightarrow> server_state \<times> emission list" where
  "handleLeaveTypingRoom localeCompare st socket =
     (case typingSocketRoomMap st socket of
        None \<Rightarrow> (st, [])
      | Some r \<Rightarrow>
          if r = [] then (st, [])
          else
            (let (st1, left) = handleLeaveTypingVoice st socket (Some r) False;
                 st2 = st1\<lparr>typingSocketRoomMap := (typingSocketRoomMap st1)(socket := None),
                           channels := (channels st1)
                             (socket := channels st1 socket - {typing_channel r})\<rparr>
             in case typingRooms st2 r of
                  None \<Rightarrow> (st2, left)
                | Some room \<Rightarrow>
                    (let remaining = AList.delete socket (users room)
                     in if remaining = [] then
                          (st2\<lparr>typingRooms := (typingRooms st2)(r := None)\<rparr>, left)
                        else
                          (let st3 = st2\<lparr>typingRooms := (typingRooms st2)
                                         (r \<mapsto> room\<lparr>users := remaining\<rparr>)\<rparr>
                           in (st3, left @ emitTypingRoomState localeCompare st3 r)))))"

subsection \<open>Canvas rooms\<close>

text \<open>
  The handlers of the canvas rooms wait for the \<open>Room\<close> collection; each is modelled as
  one step, with the store answering (the \<open>catch\<close> branch of \<open>handleJoinRoom\<close> is for a
  store that fails). \<open>$pull\<close> removes every occurrence of the id, \<open>$addToSet\<close> appends it
  when it is absent, and \<open>findOneAndUpdate\<close> without \<open>upsert\<close> changes nothing and returns
  \<open>null\<close> when no document has the \<open>roomId\<close>. The result of \<open>removeSocketFromRoom\<close> is the
  object \<open>{roomId, remainingUsers, deleted}\<close>, or \<open>None\<close> for \<open>null\<close>.
\<close>

definition removeSocketFromRoom ::
  "server_state \<Rightarrow> string \<Rightarrow> server_state \<times> (string \<times> nat \<times> bool) option" where
  "removeSocketFromRoom st socket =
     (case socketRoomMap st socket of
        None \<Rightarrow> (st, None)
      | Some r \<Rightarrow>
          if r = [] then (st, None)
          else
            (let st1 = st\<lparr>socketRoomMap := (socketRoomMap st)(socket := None)\<rparr>
             in case Room st1 r of
                  None \<Rightarrow> (st1, Some (r, 0, True))
                | Some doc \<Rightarrow>
                    (let updatedRoom = doc\<lparr>doc_users := removeAll socket (doc_users doc)\<rparr>
                     in if doc_users updatedRoom = [] then
                          (st1\<lparr>Room := (Room st1)(r := None)\<rparr>, Some (r, 0, True))
                        else
                          (st1\<lparr>Room := (Room st1)(r \<mapsto> updatedRoom)\<rparr>,
                           Some (r, length (doc_users updatedRoom), False)))))"

definition handleLeaveRoom :: "server_state \<Rightarrow> string \<Rightarrow> server_state \<times> emission list" where
  "handleLeaveRoom st socket =
     (case socketRoomMap st socket of
        None \<Rightarrow> (st, [])
      | Some r \<Rightarrow>
          if r = [] then (st, [])
          else
            (let st1 = st\<lparr>channels := (channels st)(socket := channels st socket - {r})\<rparr>;
                 (st2, removal) = removeSocketFromRoom st1 socket
             in case removal of
                  None \<Rightarrow> (st2, [])
                | Some (removedFrom, remainingUsers, deleted) \<Rightarrow>
                    (st2,
                     [Emit (ToRoomExcept r socket) ''user-left'' (MemberNotice r socket),
                      Emit (ToRoom r) ''user-count-update'' (UserCount r remainingUsers)])))"

definition handleJoinRoom ::
  "server_state \<Rightarrow> string \<Rightarrow> string option \<Rightarrow> server_state \<times> emission list" where
  "handleJoinRoom st socket rawRoomId =
     (let r = normalizeRoomId rawRoomId
      in if r = [] then
           (st, [Emit (ToSocket socket) ''room-error'' (ErrorMessage ''Room ID is required'')])
         else
           (let (st1, left) =
                  (case socketRoomMap st socket of
                     None \<Rightarrow> (st, [])
                   | Some currentRoomId \<Rightarrow>
                       if currentRoomId \<noteq> [] \<and> currentRoomId \<noteq> r then handleLeaveRoom st socket
                       else (st, []))
            in case Room st1 r of
                 None \<Rightarrow>
                   (st1, left @ [Emit (ToSocket socket) ''room-error'' (ErrorMessage ''Room not found'')])
               | Some doc \<Rightarrow>
                   (let updatedRoom =
                          doc\<lparr>doc_users := (if socket \<in> set (doc_users doc) then doc_users doc
                                            else doc_users doc @ [socket]),
                              doc_isActive := True\<rparr>;
                        existingUsers = filter (\<lambda>id. id \<noteq> socket) (doc_users updatedRoom);
                        st2 = st1\<lparr>Room := (Room st1)(r \<mapsto> updatedRoom),
                                  socketRoomMap := (socketRoomMap st1)(socket \<mapsto> r),
                                  channels := (channels st1)(socket := insert r (channels st1 socket))\<rparr>
                    in (st2,
                        left
                        @ [Emit (ToSocket socket) ''existing-users'' (ExistingUsers r existingUsers),
                           Emit (ToRoomExcept r socket) ''user-joined'' (MemberNotice r socket),
                           Emit (ToRoom r) ''user-count-update''
                             (UserCount r (length (doc_users updatedRoom)))]))))"

text \<open>\<open>forwardRoomEvent\<close> for \<open>draw\<close>, \<open>shape-draw\<close> and \<open>arrow-draw\<close>; the drawing payload is opaque.\<close>

definition forwardRoomEvent :: "server_state \<Rightarrow> string \<Rightarrow> string \<Rightarrow> string \<Rightarrow> emission list" where
  "forwardRoomEvent st socket eventName drawing =
     (case socketRoomMap st socket of
        None \<Rightarrow> []
      | Some r \<Rightarrow>
          if r = [] then [] else [Emit (ToRoomExcept r socket) eventName (Forwarded drawing socket)])"

definition handleClearCanvas :: "server_state \<Rightarrow> string \<Rightarrow> emission list" where
  "handleClearCanvas st socket =
     (case socketRoomMap st socket of
        None \<Rightarrow> []
      | Some r \<Rightarrow>
          if r = [] then [] else [Emit (ToRoomExcept r socket) ''clear-canvas'' (CanvasCleared r socket)])"

text \<open>
  The handlers of \<open>offer\<close>, \<open>answer\<close> and \<open>ice-candidate\<close> (lines 467 to 486). They take the
  state as the other handlers do; the source reads none of it.
\<close>

definition handleOffer :: "server_state \<Rightarrow> string \<Rightarrow> signal_payload \<Rightarrow> emission list" where
  "handleOffer st socket payload =
     (case (targetId payload, offer payload) of
        (Some target, Some data) \<Rightarrow>
          if target = [] then [] else [Emit (ToRoom target) ''offer'' (CanvasSignal socket data)]
      | _ \<Rightarrow> [])"

definition handleAnswer :: "server_state \<Rightarrow> string \<Rightarrow> signal_payload \<Rightarrow> emission list" where
  "handleAnswer st socket payload =
     (case (targetId payload, answer payload) of
        (Some target, Some data) \<Rightarrow>
          if target = [] then [] else [Emit (ToRoom target) ''answer'' (CanvasSignal socket data)]
      | _ \<Rightarrow> [])"

definition handleIceCandidate :: "server_state \<Rightarrow> string \<Rightarrow> signal_payload \<Rightarrow> emission list" where
  "handleIceCandidate st socket payload =
     (case (targetId payload, candidate payload) of
        (Some target, Some data) \<Rightarrow>
          if target = [] then []
          else [Emit (ToRoom target) ''ice-candidate'' (CanvasSignal socket data)]
      | _ \<Rightarrow> [])"

subsection \<open>The server as a transition system\<close>

text \<open>
  The events of \<open>io.on('connection', ...)\<close>. Every handler runs to completion before the
  next event is taken. On \<open>disconnect\<close> socket.io has already taken the socket out of
  its rooms when the handler runs.
\<close>

datatype event =
    JoinRoom "string option"
  | LeaveRoom
  | Draw string
  | ShapeDraw string
  | ArrowDraw string
  | ClearCanvas
  | Offer signal_payload
  | Answer signal_payload
  | IceCandidate signal_payload
  | JoinTypingRoom join_typing_payload
  | TypingUpdate typing_update_payload
  | LeaveTypingRoom
  | JoinVoice
  | LeaveVoice
  | TypingVoiceOffer signal_payload
  | TypingVoiceAnswer signal_payload
  | TypingVoiceIce signal_payload
  | Disconnect

fun on_event ::
  "(string \<Rightarrow> string \<Rightarrow> int) \<Rightarrow> server_state \<Rightarrow> string \<Rightarrow> int \<Rightarrow> event
     \<Rightarrow> server_state \<times> emission list" where
  "on_event lc st socket now (JoinRoom rawRoomId) = handleJoinRoom st socket rawRoomId"
| "on_event lc st socket now LeaveRoom = handleLeaveRoom st socket"
| "on_event lc st socket now (Draw d) = (st, forwardRoomEvent st socket ''draw'' d)"
| "on_event lc st socket now (ShapeDraw d) = (st, forwardRoomEvent st socket ''shape-draw'' d)"
| "on_event lc st socket now (ArrowDraw d) = (st, forwardRoomEvent st socket ''arrow-draw'' d)"
| "on_event lc st socket now ClearCanvas = (st, handleClearCanvas st socket)"
| "on_event lc st socket now (Offer p) = (st, handleOffer st socket p)"
| "on_event lc st socket now (Answer p) = (st, handleAnswer st socket p)"
| "on_event lc st socket now (IceCandidate p) = (st, handleIceCandidate st socket p)"
| "on_event lc st socket now (JoinTypingRoom p) = handleJoinTypingRoom lc st socket p now"
| "on_event lc st socket now (TypingUpdate p) = handleTypingUpdate lc st socket p now"
| "on_event lc st socket now LeaveTypingRoom = handleLeaveTypingRoom lc st socket"
| "on_event lc st socket now JoinVoice = handleJoinTypingVoice st socket now"
| "on_event lc st socket now LeaveVoice = handleLeaveTypingVoice st socket None False"
| "on_event lc st socket now (TypingVoiceOffer p) =
     (st, forwardTypingVoiceSignal st socket ''typing-voice-offer'' p)"
| "on_event lc st socket now (TypingVoiceAnswer p) =
     (st, forwardTypingVoiceSignal st socket ''typing-voice-answer'' p)"
| "on_event lc st socket now (TypingVoiceIce p) =
     (st, forwardTypingVoiceSignal st socket ''typing-voice-ice'' p)"
| "on_event lc st socket now Disconnect =
     (let (st1, left) = handleLeaveRoom (st\<lparr>channels := (channels st)(socket := {})\<rparr>) socket;
          (st2, leftTyping) = handleLeaveTypingRoom lc st1 socket
      in (st2, left @ leftTyping))"

text \<open>
  What the server receives: an event of a socket at a time of the clock, or the request
  \<open>POST /api/typing/create-room\<close> with the room id and the text it has drawn.
\<close>

datatype input = FromSocket string int event | CreateTypingRoomRequest string string

fun serve :: "(string \<Rightarrow> string \<Rightarrow> int) \<Rightarrow> server_state \<Rightarrow> input \<Rightarrow> server_state \<times> emission list" where
  "serve lc st (FromSocket socket now e) = on_event lc st socket now e"
| "serve lc st (CreateTypingRoomRequest r txt) = (createTypingRoom st r txt, [])"

fun run :: "(string \<Rightarrow> string \<Rightarrow> int) \<Rightarrow> server_state \<Rightarrow> input list \<Rightarrow> server_state \<times> emission list" where
  "run lc st [] = (st, [])"
| "run lc st (i # is) =
     (let (st1, out1) = serve lc st i; (st2, out2) = run lc st1 is in (st2, out1 @ out2))"

subsection \<open>Reading the state\<close>

text \<open>
  The participant a socket's \<open>typing-update\<close> is about, found as \<open>handleTypingUpdate\<close>
  finds it: the room of the socket in \<open>typingSocketRoomMap\<close>, then the socket's entry in
  that room's \<open>users\<close>.
\<close>

definition participantOf :: "server_state \<Rightarrow> string \<Rightarrow> participant option" where
  "participantOf st socket =
     (case typingSocketRoomMap st socket of
        None \<Rightarrow> None
      | Some r \<Rightarrow>
          if r = [] then None
          else (case typingRooms st r of None \<Rightarrow> None | Some room \<Rightarrow> map_of (users room) socket))"

text \<open>The typing room a socket is bound to (the empty string when it has none).\<close>

definition roomOf :: "server_state \<Rightarrow> string \<Rightarrow> string" where
  "roomOf st socket = (case typingSocketRoomMap st socket of None \<Rightarrow> [] | Some r \<Rightarrow> r)"

text \<open>The prompt of the room a socket is typing in.\<close>

definition promptOf :: "server_state \<Rightarrow> string \<Rightarrow> string" where
  "promptOf st socket =
     (case typingSocketRoomMap st socket of
        None \<Rightarrow> []
      | Some r \<Rightarrow> (case typingRooms st r of None \<Rightarrow> [] | Some room \<Rightarrow> roomText room))"

text \<open>A participant is terminal when it has completed the prompt or run out of time.\<close>

definition terminal :: "participant \<Rightarrow> bool" where
  "terminal user = (isCompleted user \<or> isTimeUp user)"

text \<open>The \<open>typing-update\<close> events of one socket, each with the clock at its arrival.\<close>

definition updates_of :: "string \<Rightarrow> (int \<times> typing_update_payload) list \<Rightarrow> input list" where
  "updates_of socket ups = map (\<lambda>(now, p). FromSocket socket now (TypingUpdate p)) ups"




text \<open>The emissions with a given event name, in the order they were emitted.\<close>

definition eventName :: "emission \<Rightarrow> string" where
  "eventName e = (case e of Emit to name body \<Rightarrow> name)"

definition named :: "string \<Rightarrow> emission list \<Rightarrow> emission list" where
  "named name out = filter (\<lambda>e. eventName e = name) out"

text \<open>
  In the room \<open>r\<close>, if it exists with an empty prompt, no participant is completed.
\<close>

definition emptyPromptUncompleted :: "string \<Rightarrow> server_state \<Rightarrow> bool" where
  "emptyPromptUncompleted r st =
     (case typingRooms st r of
        None \<Rightarrow> True
      | Some room \<Rightarrow> roomText room \<noteq> [] \<or> list_all (\<lambda>entry. \<not> isCompleted (snd entry)) (users room))"

subsection \<open>The order of the leaderboard\<close>

text \<open>
  \<open>a\<close> goes before \<open>b\<close> when the comparator is negative. \<open>finishedAt\<close> is the completion
  time the comparator sees (\<open>null\<close> and 0 are both false in its conditions).
  \<open>spec_before\<close> is the order in the words of the specification: score descending, then
  completion time ascending with a present time before an absent one, then username
  ascending. \<open>separated\<close> says that two entries differ in score, in completion time or,
  both having none, in username. \<open>collation\<close> is what is assumed of \<open>localeCompare\<close>:
  swapping the arguments swaps the sign, and the order is transitive.
\<close>

definition before :: "(string \<Rightarrow> string \<Rightarrow> int) \<Rightarrow> leaderboard_entry \<Rightarrow> leaderboard_entry \<Rightarrow> bool" where
  "before lc a b = (leaderboardCompare lc a b < 0)"

definition finishedAt :: "leaderboard_entry \<Rightarrow> int option" where
  "finishedAt a = or_null (lb_completionTime a)"

definition spec_before :: "(string \<Rightarrow> string \<Rightarrow> int) \<Rightarrow> leaderboard_entry \<Rightarrow> leaderboard_entry \<Rightarrow> bool" where
  "spec_before lc a b =
     (lb_score b < lb_score a
      \<or> (lb_score a = lb_score b
         \<and> (case (finishedAt a, finishedAt b) of
               (Some s, Some t) \<Rightarrow> s < t \<or> (s = t \<and> lc (lb_username a) (lb_username b) < 0)
             | (Some s, None) \<Rightarrow> True
             | (None, Some t) \<Rightarrow> False
             | (None, None) \<Rightarrow> lc (lb_username a) (lb_username b) < 0)))"

definition separated :: "(string \<Rightarrow> string \<Rightarrow> int) \<Rightarrow> leaderboard_entry \<Rightarrow> leaderboard_entry \<Rightarrow> bool" where
  "separated lc a b =
     (lb_score a \<noteq> lb_score b \<or> finishedAt a \<noteq> finishedAt b
      \<or> (finishedAt a = None \<and> finishedAt b = None \<and> lc (lb_username a) (lb_username b) \<noteq> 0))"

definition collation :: "(string \<Rightarrow> string \<Rightarrow> int) \<Rightarrow> bool" where
  "collation lc =
     ((\<forall>x y. (lc x y < 0) = (0 < lc y x))
      \<and> (\<forall>x y z. lc x y \<le> 0 \<and> lc y z \<le> 0 \<longrightarrow> lc x z \<le> 0))"


text \<open>The rate of an input in characters per second, as an exact fraction.\<close>

definition exactRate :: "int \<Rightarrow> int \<Rightarrow> rat" where
  "exactRate lengthDelta timeDelta = of_int \<bar>lengthDelta\<bar> / (of_int timeDelta / 1000)"


subsection \<open>Sample values\<close>

text \<open>A collation for the examples: the order of the code units.\<close>

fun codeUnitCompare :: "string \<Rightarrow> string \<Rightarrow> int" where
  "codeUnitCompare [] [] = 0"
| "codeUnitCompare [] (y # ys) = - 1"
| "codeUnitCompare (x # xs) [] = 1"
| "codeUnitCompare (x # xs) (y # ys) =
     (if (of_char x :: nat) < of_char y then - 1
      else if (of_char y :: nat) < of_char x then 1
      else codeUnitCompare xs ys)"

text \<open>The participant \<open>handleJoinTypingRoom\<close> stores for a socket that was not in the room.\<close>

definition joined_at :: "string \<Rightarrow> string \<Rightarrow> int \<Rightarrow> participant" where
  "joined_at socket name now =
     \<lparr>socketId = socket, username = name, score = 0, typedLength = 0, correctChars = 0,
      lastInputLength = 0, lastInputValue = [], lastUpdateAt = now, isCompleted = False,
      completionTime = None, flags = [], isFlagged = False, startedAt = None,
      expiresAt = None, isTimeUp = False\<rparr>"

definition empty_state :: server_state where
  "empty_state =
     \<lparr>socketRoomMap = Map.empty, typingSocketRoomMap = Map.empty, typingRooms = Map.empty,
      Room = Map.empty, channels = (\<lambda>socket. {})\<rparr>"

text \<open>
  A typing room \<open>RACE2345\<close> with the given prompt and two sockets in it: \<open>s1\<close> with the
  given participant object and \<open>s2\<close>, who joined as Bob at time 1000 and has not typed.
\<close>

definition race_state :: "string \<Rightarrow> participant \<Rightarrow> server_state" where
  "race_state txt user =
     empty_state
       \<lparr>typingSocketRoomMap := [''s1'' \<mapsto> ''RACE2345'', ''s2'' \<mapsto> ''RACE2345''],
        typingRooms :=
          [''RACE2345'' \<mapsto>
             \<lparr>roomId = ''RACE2345'', roomText = txt,
              users = [(''s1'', user), (''s2'', joined_at ''s2'' ''Bob'' 1000)],
              voiceParticipants = []\<rparr>],
        channels := (\<lambda>socket. if socket = ''s1'' \<or> socket = ''s2'' then {''typing:RACE2345''} else {})\<rparr>"

text \<open>
  Ann on socket \<open>s1\<close>: as she joined at time 1000; after typing \<open>c\<close> at time 2000, which
  started her clock; and after completing the prompt \<open>cat\<close> at time 3000.
\<close>

definition ann_fresh :: participant where
  "ann_fresh = joined_at ''s1'' ''Ann'' 1000"

definition ann_typing :: participant where
  "ann_typing =
     ann_fresh\<lparr>score := 1, typedLength := 1, correctChars := 1, lastInputLength := 1,
               lastInputValue := ''c'', lastUpdateAt := 2000, startedAt := Some 2000,
               expiresAt := Some 62000\<rparr>"

definition ann_done :: participant where
  "ann_done =
     ann_typing\<lparr>score := 3, typedLength := 3, correctChars := 3, lastInputLength := 3,
                lastInputValue := ''cat'', lastUpdateAt := 3000, isCompleted := True,
                completionTime := Some 3000\<rparr>"

text \<open>An input without a paste hint and without a reported delta.\<close>

definition input_of :: "string \<Rightarrow> typing_update_payload" where
  "input_of v = \<lparr>tu_value = Some v, tu_isPaste = False, tu_delta = None\<rparr>"

text \<open>
  Two canvas rooms: \<open>s1\<close> and \<open>s2\<close> have joined \<open>DRAWAAAA\<close>, \<open>s3\<close> has joined \<open>DRAWBBBB\<close>.
\<close>

definition two_rooms :: server_state where
  "two_rooms =
     empty_state
       \<lparr>socketRoomMap := [''s1'' \<mapsto> ''DRAWAAAA'', ''s2'' \<mapsto> ''DRAWAAAA'', ''s3'' \<mapsto> ''DRAWBBBB''],
        Room := [''DRAWAAAA'' \<mapsto> \<lparr>doc_roomId = ''DRAWAAAA'', doc_users = [''s1'', ''s2''],
                                  doc_isActive = True\<rparr>,
                 ''DRAWBBBB'' \<mapsto> \<lparr>doc_roomId = ''DRAWBBBB'', doc_users = [''s3''],
                                  doc_isActive = True\<rparr>],
        channels := (\<lambda>socket. if socket = ''s1'' \<or> socket = ''s2'' then {''DRAWAAAA''}
                              else if socket = ''s3'' then {''DRAWBBBB''} else {})\<rparr>"

text \<open>A signaling payload for a target, carrying the same data in each field.\<close>

definition signal_to :: "string \<Rightarrow> signal_payload" where
  "signal_to target =
     \<lparr>targetId = Some target, offer = Some (SignalData ''sdp''),
      answer = Some (SignalData ''sdp''), candidate = Some (SignalData ''sdp'')\<rparr>"

text \<open>Bob on socket \<open>s2\<close>, having completed \<open>cat\<close> in the same millisecond as Ann.\<close>

definition bob_done :: participant where
  "bob_done =
     (joined_at ''s2'' ''Bob'' 1000)
       \<lparr>score := 3, typedLength := 3, correctChars := 3, lastInputLength := 3,
        lastInputValue := ''cat'', lastUpdateAt := 3000, isCompleted := True,
        completionTime := Some 3000, startedAt := Some 1500, expiresAt := Some 61500\<rparr>"


section \<open>Scoring\<close>

lemma computeScore_loop_from:
  "i \<le> length typed \<Longrightarrow>
   computeScore_loop target typed i s c =
     (s + int (length (filter (\<lambda>k. k < length target \<and> typed ! k = target ! k) [i..<length typed]))
        - int (length (filter (\<lambda>k. k < length target \<and> typed ! k \<noteq> target ! k) [i..<length typed]))
        - int (length (filter (\<lambda>k. length target \<le> k) [i..<length typed])),
      c + length (filter (\<lambda>k. k < length target \<and> typed ! k = target ! k) [i..<length typed]))"
proof (induction target typed i s c rule: computeScore_loop.induct)
  case (1 target typed i score correctChars)
  show ?case
  proof (cases "i < length typed")
    case False
    then show ?thesis
      by (simp add: computeScore_loop.simps [of target typed i])
  next
    case True
    then have split: "[i..<length typed] = i # [Suc i..<length typed]"
      by (simp add: upt_conv_Cons)
    have next_le: "i + 1 \<le> length typed"
      using True by simp
    show ?thesis
    proof (cases "length target \<le> i")
      case beyond: True
      from "1.IH"(1) [OF True beyond next_le] True beyond show ?thesis
        by (simp add: computeScore_loop.simps [of target typed i] split)
    next
      case inside: False
      show ?thesis
      proof (cases "typed ! i = target ! i")
        case same: True
        from "1.IH"(2) [OF True inside same next_le] True inside same show ?thesis
          by (simp add: computeScore_loop.simps [of target typed i] split)
      next
        case differ: False
        from "1.IH"(3) [OF True inside differ next_le] True inside differ show ?thesis
          by (simp add: computeScore_loop.simps [of target typed i] split)
      qed
    qed
  qed
qed

lemma computeScore_Some:
  "computeScore (Some prompt) (Some typed) =
     (spec_score prompt typed, length (matched_positions prompt typed), length typed)"
  by (simp add: computeScore_def computeScore_loop_from spec_score_def matched_positions_def
      mismatched_positions_def excess_positions_def)

text \<open>
  Claim C3. The score is a function of the prompt and the typed value alone: one point for
  every typed position that matches the prompt, minus one for every mismatched position,
  minus one for every typed position beyond the prompt. For the prompt "cat" the typed
  values "cat", "cap" and "cats" score 3, 1 and 2.
\<close>

theorem computeScore_per_character:
  "fst (computeScore (Some prompt) (Some typed)) =
     int (length (matched_positions prompt typed))
     - int (length (mismatched_positions prompt typed))
     - int (length (excess_positions prompt typed))
   \<and> fst (computeScore (Some ''cat'') (Some ''cat'')) = 3
   \<and> fst (computeScore (Some ''cat'') (Some ''cap'')) = 1
   \<and> fst (computeScore (Some ''cat'') (Some ''cats'')) = 2"
proof -
  have general: "fst (computeScore (Some prompt) (Some typed)) = spec_score prompt typed"
    by (simp add: computeScore_Some)
  have cat: "fst (computeScore (Some ''cat'') (Some ''cat'')) = 3"
    by code_simp
  have cap: "fst (computeScore (Some ''cat'') (Some ''cap'')) = 1"
    by code_simp
  have cats: "fst (computeScore (Some ''cat'') (Some ''cats'')) = 2"
    by code_simp
  from general cat cap cats show ?thesis
    by (simp add: spec_score_def)
qed

section \<open>One typing update\<close>

lemma startClock_same [simp]:
  "socketId (startClock u now) = socketId u"
  "username (startClock u now) = username u"
  "flags (startClock u now) = flags u"
  "isFlagged (startClock u now) = isFlagged u"
  "isCompleted (startClock u now) = isCompleted u"
  "isTimeUp (startClock u now) = isTimeUp u"
  "completionTime (startClock u now) = completionTime u"
  "lastUpdateAt (startClock u now) = lastUpdateAt u"
  "lastInputLength (startClock u now) = lastInputLength u"
  by (simp_all add: startClock_def)

lemma flagUser_same [simp]:
  "socketId (flagUser u x) = socketId u"
  "username (flagUser u x) = username u"
  "isCompleted (flagUser u x) = isCompleted u"
  "isTimeUp (flagUser u x) = isTimeUp u"
  "completionTime (flagUser u x) = completionTime u"
  "lastUpdateAt (flagUser u x) = lastUpdateAt u"
  "startedAt (flagUser u x) = startedAt u"
  "expiresAt (flagUser u x) = expiresAt u"
  by (simp_all add: flagUser_def)

lemma applyTypingUpdate_identity:
  "socketId (fst (applyTypingUpdate txt user p now)) = socketId user"
  "username (fst (applyTypingUpdate txt user p now)) = username user"
  by (simp_all add: applyTypingUpdate_def Let_def computeScore_Some)

lemma applyTypingUpdate_clock:
  "startedAt (fst (applyTypingUpdate txt user p now)) = startedAt (startClock user now)"
  "expiresAt (fst (applyTypingUpdate txt user p now)) = expiresAt (startClock user now)"
  by (simp_all add: applyTypingUpdate_def Let_def computeScore_Some)

lemma applyTypingUpdate_score:
  "score (fst (applyTypingUpdate txt user p now)) =
     fst (computeScore (Some txt) (Some (safeValueOf txt p)))"
  "correctChars (fst (applyTypingUpdate txt user p now)) =
     fst (snd (computeScore (Some txt) (Some (safeValueOf txt p))))"
  "typedLength (fst (applyTypingUpdate txt user p now)) = length (safeValueOf txt p)"
  "lastInputLength (fst (applyTypingUpdate txt user p now)) = length (safeValueOf txt p)"
  "lastInputValue (fst (applyTypingUpdate txt user p now)) = safeValueOf txt p"
  "lastUpdateAt (fst (applyTypingUpdate txt user p now)) = now"
  by (simp_all add: applyTypingUpdate_def Let_def computeScore_Some)

lemma applyTypingUpdate_finished:
  "fst (snd (applyTypingUpdate txt user p now)) =
     (\<not> isCompleted user \<and> length txt \<le> length (safeValueOf txt p) \<and> 0 < length txt)"
  by (simp add: applyTypingUpdate_def Let_def computeScore_Some)

lemma applyTypingUpdate_isCompleted:
  "isCompleted (fst (applyTypingUpdate txt user p now)) =
     (isCompleted user \<or> (length txt \<le> length (safeValueOf txt p) \<and> 0 < length txt))"
  by (auto simp add: applyTypingUpdate_def Let_def computeScore_Some)

lemma applyTypingUpdate_completionTime:
  "completionTime (fst (applyTypingUpdate txt user p now)) =
     (if fst (snd (applyTypingUpdate txt user p now)) then Some now else completionTime user)"
  by (auto simp add: applyTypingUpdate_def Let_def computeScore_Some)

lemma applyTypingUpdate_timedOut:
  "snd (snd (applyTypingUpdate txt user p now)) =
     (expiredThisUpdate (startClock user now) now \<and> \<not> isTimeUp user)"
  by (simp add: applyTypingUpdate_def Let_def computeScore_Some)

lemma applyTypingUpdate_isTimeUp:
  "isTimeUp (fst (applyTypingUpdate txt user p now)) =
     (isTimeUp user \<or> expiredThisUpdate (startClock user now) now)"
  by (auto simp add: applyTypingUpdate_def Let_def computeScore_Some)

lemma applyTypingUpdate_flags:
  "flags (fst (applyTypingUpdate txt user p now)) =
     (let lengthDelta = int (length (safeValueOf txt p)) - int (lastInputLength user);
          timeDelta = now - lastUpdateAt user;
          u1 = (if pasteSuspected (tu_isPaste p) lengthDelta timeDelta
                then flagUser user ''paste-detected'' else user);
          u2 = (if tooFast lengthDelta timeDelta then flagUser u1 ''speed-warning'' else u1);
          u3 = (if deltaReported (tu_delta p) then flagUser u2 ''paste-detected'' else u2)
      in flags u3)"
  by (simp add: applyTypingUpdate_def Let_def computeScore_Some flagUser_def startClock_def)

lemma reaches_prompt:
  "length txt \<le> length (safeValueOf txt p) \<longleftrightarrow> length txt \<le> length (rawValueOf p)"
  by (auto simp: safeValueOf_def)

section \<open>The handler\<close>

lemma participantOf_SomeD:
  assumes "participantOf st socket = Some user"
  obtains r room where "typingSocketRoomMap st socket = Some r" and "r \<noteq> []"
    and "typingRooms st r = Some room" and "map_of (users room) socket = Some user"
  using assms by (auto simp: participantOf_def split: option.splits if_splits)

lemma handleTypingUpdate_terminal:
  assumes "participantOf st socket = Some user" and "terminal user"
  shows "handleTypingUpdate lc st socket payload now = (st, [])"
  using assms
  by (auto simp: handleTypingUpdate_def participantOf_def terminal_def split: option.splits if_splits)

lemma handleTypingUpdate_active:
  assumes "typingSocketRoomMap st socket = Some r" and "r \<noteq> []"
    and "typingRooms st r = Some room" and "map_of (users room) socket = Some user"
    and "\<not> terminal user"
  shows "handleTypingUpdate lc st socket payload now =
     (let user' = fst (applyTypingUpdate (roomText room) user payload now);
          finished = fst (snd (applyTypingUpdate (roomText room) user payload now));
          timedOut = snd (snd (applyTypingUpdate (roomText room) user payload now));
          st' = st\<lparr>typingRooms := (typingRooms st)
                     (r \<mapsto> room\<lparr>users := AList.update socket user' (users room)\<rparr>)\<rparr>
      in (st',
          (if finished
           then [Emit (ToRoom (typing_channel r)) ''user-finished'' (UserFinished r (username user') now)]
           else [])
          @ (if timedOut
             then [Emit (ToSocket socket) ''typing-timeup'' (UserTimeUp r (username user')),
                   Emit (ToRoomExcept (typing_channel r) socket) ''user-timeup''
                     (UserTimeUp r (username user'))]
             else [])
          @ emitTypingRoomState lc st' r))"
  using assms
  by (simp add: handleTypingUpdate_def terminal_def Let_def split: prod.splits)

lemma run_updates_terminal:
  assumes "participantOf st socket = Some user" and "terminal user"
  shows "run lc st (updates_of socket ups) = (st, [])"
  using assms
  by (induction ups) (auto simp: updates_of_def handleTypingUpdate_terminal)

lemma named_emitTypingRoomState:
  "name \<noteq> ''typing-users-update'' \<Longrightarrow> name \<noteq> ''leaderboard-update'' \<Longrightarrow>
   named name (emitTypingRoomState lc st r) = []"
  by (auto simp: named_def emitTypingRoomState_def eventName_def split: option.splits)

lemma named_append [simp]: "named name (xs @ ys) = named name xs @ named name ys"
  by (simp add: named_def)

lemma named_if [simp]:
  "named name (if c then xs else ys) = (if c then named name xs else named name ys)"
  by simp

lemma named_Cons_Emit [simp]:
  "named name (Emit to n body # out) = (if n = name then Emit to n body # named name out else named name out)"
  by (simp add: named_def eventName_def)

lemma named_Nil [simp]: "named name [] = []"
  by (simp add: named_def)

lemma map_of_update_same: "map_of (AList.update k v al) k = Some v"
  by (simp add: update_conv')

lemma update_after:
  assumes "participantOf st socket = Some user" and "\<not> terminal user"
  shows "participantOf (fst (handleTypingUpdate lc st socket p now)) socket =
           Some (fst (applyTypingUpdate (promptOf st socket) user p now))"
    and "roomOf (fst (handleTypingUpdate lc st socket p now)) socket = roomOf st socket"
    and "promptOf (fst (handleTypingUpdate lc st socket p now)) socket = promptOf st socket"
proof -
  from assms(1) obtain r room where ctx: "typingSocketRoomMap st socket = Some r" "r \<noteq> []"
      "typingRooms st r = Some room" "map_of (users room) socket = Some user"
    by (rule participantOf_SomeD)
  note step = handleTypingUpdate_active [OF ctx assms(2), of lc p now]
  show "participantOf (fst (handleTypingUpdate lc st socket p now)) socket =
           Some (fst (applyTypingUpdate (promptOf st socket) user p now))"
    using ctx by (simp add: step Let_def participantOf_def promptOf_def map_of_update_same)
  show "roomOf (fst (handleTypingUpdate lc st socket p now)) socket = roomOf st socket"
    using ctx by (simp add: step Let_def roomOf_def)
  show "promptOf (fst (handleTypingUpdate lc st socket p now)) socket = promptOf st socket"
    using ctx by (simp add: step Let_def promptOf_def)
qed

lemma update_notices:
  assumes "participantOf st socket = Some user" and "\<not> terminal user"
  shows "named ''user-finished'' (snd (handleTypingUpdate lc st socket p now)) =
           (if fst (snd (applyTypingUpdate (promptOf st socket) user p now))
            then [Emit (ToRoom (typing_channel (roomOf st socket))) ''user-finished''
                    (UserFinished (roomOf st socket) (username user) now)]
            else [])"
    and "named ''typing-timeup'' (snd (handleTypingUpdate lc st socket p now)) =
           (if snd (snd (applyTypingUpdate (promptOf st socket) user p now))
            then [Emit (ToSocket socket) ''typing-timeup'' (UserTimeUp (roomOf st socket) (username user))]
            else [])"
    and "named ''user-timeup'' (snd (handleTypingUpdate lc st socket p now)) =
           (if snd (snd (applyTypingUpdate (promptOf st socket) user p now))
            then [Emit (ToRoomExcept (typing_channel (roomOf st socket)) socket) ''user-timeup''
                    (UserTimeUp (roomOf st socket) (username user))]
            else [])"
proof -
  from assms(1) obtain r room where ctx: "typingSocketRoomMap st socket = Some r" "r \<noteq> []"
      "typingRooms st r = Some room" "map_of (users room) socket = Some user"
    by (rule participantOf_SomeD)
  note step = handleTypingUpdate_active [OF ctx assms(2), of lc p now]
  show "named ''user-finished'' (snd (handleTypingUpdate lc st socket p now)) =
           (if fst (snd (applyTypingUpdate (promptOf st socket) user p now))
            then [Emit (ToRoom (typing_channel (roomOf st socket))) ''user-finished''
                    (UserFinished (roomOf st socket) (username user) now)]
            else [])"
    using ctx
    by (simp add: step Let_def promptOf_def roomOf_def named_emitTypingRoomState
        applyTypingUpdate_identity)
  show "named ''typing-timeup'' (snd (handleTypingUpdate lc st socket p now)) =
           (if snd (snd (applyTypingUpdate (promptOf st socket) user p now))
            then [Emit (ToSocket socket) ''typing-timeup'' (UserTimeUp (roomOf st socket) (username user))]
            else [])"
    using ctx
    by (simp add: step Let_def promptOf_def roomOf_def named_emitTypingRoomState
        applyTypingUpdate_identity)
  show "named ''user-timeup'' (snd (handleTypingUpdate lc st socket p now)) =
           (if snd (snd (applyTypingUpdate (promptOf st socket) user p now))
            then [Emit (ToRoomExcept (typing_channel (roomOf st socket)) socket) ''user-timeup''
                    (UserTimeUp (roomOf st socket) (username user))]
            else [])"
    using ctx
    by (simp add: step Let_def promptOf_def roomOf_def named_emitTypingRoomState
        applyTypingUpdate_identity)
qed


text \<open>The sample states, read back.\<close>

lemma race_state_participant: "participantOf (race_state txt user) ''s1'' = Some user"
  by (simp add: participantOf_def race_state_def empty_state_def)

lemma race_state_room:
  "typingRooms (race_state txt user) ''RACE2345'' =
     Some \<lparr>roomId = ''RACE2345'', roomText = txt,
           users = [(''s1'', user), (''s2'', joined_at ''s2'' ''Bob'' 1000)],
           voiceParticipants = []\<rparr>"
  by (simp add: race_state_def empty_state_def)

lemma race_state_reads:
  "roomOf (race_state txt user) ''s1'' = ''RACE2345''"
  "promptOf (race_state txt user) ''s1'' = txt"
  by (simp_all add: roomOf_def promptOf_def race_state_def empty_state_def)

section \<open>Terminal participants\<close>

text \<open>
  Claim C4. Once a participant is terminal (completed or out of time), every later
  \<open>typing-update\<close> of that participant is a no-op: any sequence of such updates leaves
  the whole server state as it was, so none of the participant's fields changes, and
  nothing is emitted, neither a notice nor a leaderboard.
\<close>

theorem terminal_updates_are_ignored:
  assumes "participantOf st socket = Some user" and "terminal user"
  shows "run lc st (updates_of socket ups) = (st, [])"
  using assms by (rule run_updates_terminal)

theorem terminal_updates_are_ignored_witness:
  "participantOf (race_state ''cat'' ann_done) ''s1'' = Some ann_done \<and> terminal ann_done
   \<and> run codeUnitCompare (race_state ''cat'' ann_done)
         (updates_of ''s1'' [(4000, input_of ''cats''), (70000, input_of ''cat'')]) =
       (race_state ''cat'' ann_done, [])"
proof -
  have present: "participantOf (race_state ''cat'' ann_done) ''s1'' = Some ann_done"
    by (rule race_state_participant)
  have over: "terminal ann_done"
    by (simp add: terminal_def ann_done_def)
  from terminal_updates_are_ignored [OF present over] present over show ?thesis
    by simp
qed

section \<open>The clock and the deadline\<close>

lemma join_after:
  assumes "normalizeRoomId (jp_roomId jp) = r" and "r \<noteq> []"
    and "typingRooms st r = Some room" and "sanitizeUsername (jp_username jp) = Some name"
  shows "\<exists>u. participantOf (fst (handleJoinTypingRoom lc st socket jp now)) socket = Some u
           \<and> username u = name \<and> lastUpdateAt u = now
           \<and> startedAt u = (case map_of (users room) socket of None \<Rightarrow> None | Some old \<Rightarrow> or_null (startedAt old))
           \<and> expiresAt u = (case map_of (users room) socket of None \<Rightarrow> None | Some old \<Rightarrow> or_null (expiresAt old))
           \<and> flags u = (case map_of (users room) socket of None \<Rightarrow> [] | Some old \<Rightarrow> flags old)
           \<and> isCompleted u = (case map_of (users room) socket of None \<Rightarrow> False | Some old \<Rightarrow> isCompleted old)
           \<and> isTimeUp u = (case map_of (users room) socket of None \<Rightarrow> False | Some old \<Rightarrow> isTimeUp old)"
  using assms
  by (simp add: handleJoinTypingRoom_def Let_def participantOf_def map_of_update_same)

text \<open>
  Claim C5. For a participant who is not terminal, an update sets \<open>startedAt\<close> to the
  clock and \<open>expiresAt\<close> to \<open>startedAt\<close> plus the 60 seconds of the limit when \<open>startedAt\<close> is
  not yet set, and leaves both as they are when it is; a join never sets them (a socket
  new to the room gets \<open>null\<close> for both, one already in it keeps what it had). The
  participant becomes timed out on the update whose clock has reached \<open>expiresAt\<close>; that
  update emits \<open>typing-timeup\<close> to the participant and \<open>user-timeup\<close> to the rest of the
  room, once each, and every later update of the participant is ignored, so the
  transition and its notices happen once.
\<close>

theorem clock_starts_on_first_update:
  assumes "participantOf st socket = Some user" and "\<not> terminal user"
    and "normalizeRoomId (jp_roomId jp) = r" and "r \<noteq> []"
    and "typingRooms st r = Some room" and "sanitizeUsername (jp_username jp) = Some name"
  shows "(\<exists>user'. participantOf (fst (handleTypingUpdate lc st socket p now)) socket = Some user'
            \<and> startedAt user' = (if truthy (startedAt user) then startedAt user else Some now)
            \<and> expiresAt user' = (if truthy (startedAt user) then expiresAt user
                                  else Some (now + TYPING_TIME_LIMIT_SECONDS * 1000))
            \<and> isTimeUp user' = (truthy (expiresAt user') \<and> number_of (expiresAt user') \<le> now)
            \<and> named ''typing-timeup'' (snd (handleTypingUpdate lc st socket p now)) =
                 (if isTimeUp user'
                  then [Emit (ToSocket socket) ''typing-timeup''
                          (UserTimeUp (roomOf st socket) (username user))]
                  else [])
            \<and> named ''user-timeup'' (snd (handleTypingUpdate lc st socket p now)) =
                 (if isTimeUp user'
                  then [Emit (ToRoomExcept (typing_channel (roomOf st socket)) socket) ''user-timeup''
                          (UserTimeUp (roomOf st socket) (username user))]
                  else [])
            \<and> (isTimeUp user' \<longrightarrow>
                 run lc (fst (handleTypingUpdate lc st socket p now)) (updates_of socket later) =
                   (fst (handleTypingUpdate lc st socket p now), [])))
       \<and> (\<exists>u. participantOf (fst (handleJoinTypingRoom lc st joiner jp joinTime)) joiner = Some u
            \<and> startedAt u = (case map_of (users room) joiner of
                               None \<Rightarrow> None | Some old \<Rightarrow> or_null (startedAt old))
            \<and> expiresAt u = (case map_of (users room) joiner of
                               None \<Rightarrow> None | Some old \<Rightarrow> or_null (expiresAt old)))"
proof -
  let ?after = "handleTypingUpdate lc st socket p now"
  let ?user' = "fst (applyTypingUpdate (promptOf st socket) user p now)"
  have idle: "\<not> isTimeUp user"
    using assms(2) by (simp add: terminal_def)
  have after: "participantOf (fst ?after) socket = Some ?user'"
    by (rule update_after(1) [OF assms(1,2)])
  have started: "startedAt ?user' = (if truthy (startedAt user) then startedAt user else Some now)"
    by (simp add: applyTypingUpdate_clock startClock_def)
  have expires: "expiresAt ?user' = (if truthy (startedAt user) then expiresAt user
                                     else Some (now + TYPING_TIME_LIMIT_SECONDS * 1000))"
    by (simp add: applyTypingUpdate_clock startClock_def TYPING_TIME_LIMIT_MS_def)
  have timeup: "isTimeUp ?user' = (truthy (expiresAt ?user') \<and> number_of (expiresAt ?user') \<le> now)"
    using idle
    by (simp add: applyTypingUpdate_isTimeUp applyTypingUpdate_clock expiredThisUpdate_def
        TYPING_TIME_LIMIT_MS_def TYPING_TIME_LIMIT_SECONDS_def)
  have timedOut: "snd (snd (applyTypingUpdate (promptOf st socket) user p now)) = isTimeUp ?user'"
    using idle by (simp add: applyTypingUpdate_timedOut applyTypingUpdate_isTimeUp)
  have self: "named ''typing-timeup'' (snd ?after) =
                 (if isTimeUp ?user'
                  then [Emit (ToSocket socket) ''typing-timeup''
                          (UserTimeUp (roomOf st socket) (username user))]
                  else [])"
    by (simp only: update_notices(2) [OF assms(1,2)] timedOut)
  have others: "named ''user-timeup'' (snd ?after) =
                 (if isTimeUp ?user'
                  then [Emit (ToRoomExcept (typing_channel (roomOf st socket)) socket) ''user-timeup''
                          (UserTimeUp (roomOf st socket) (username user))]
                  else [])"
    by (simp only: update_notices(3) [OF assms(1,2)] timedOut)
  have once: "isTimeUp ?user' \<longrightarrow> run lc (fst ?after) (updates_of socket later) = (fst ?after, [])"
  proof
    assume "isTimeUp ?user'"
    then have "terminal ?user'"
      by (simp add: terminal_def)
    with after show "run lc (fst ?after) (updates_of socket later) = (fst ?after, [])"
      by (rule run_updates_terminal)
  qed
  from join_after [OF assms(3-6), of lc joiner joinTime]
  obtain u where joined: "participantOf (fst (handleJoinTypingRoom lc st joiner jp joinTime)) joiner = Some u"
    and "startedAt u = (case map_of (users room) joiner of None \<Rightarrow> None | Some old \<Rightarrow> or_null (startedAt old))"
    and "expiresAt u = (case map_of (users room) joiner of None \<Rightarrow> None | Some old \<Rightarrow> or_null (expiresAt old))"
    by blast
  with after started expires timeup self others once show ?thesis
    by blast
qed

theorem clock_starts_on_first_update_witness:
  "(\<exists>user'. participantOf (fst (handleTypingUpdate codeUnitCompare (race_state ''cat'' ann_fresh)
                ''s1'' (input_of ''c'') 2000)) ''s1'' = Some user'
       \<and> startedAt user' = Some 2000 \<and> expiresAt user' = Some 62000 \<and> \<not> isTimeUp user')
   \<and> (\<exists>user'. participantOf (fst (handleTypingUpdate codeUnitCompare (race_state ''cat'' ann_typing)
                ''s1'' (input_of ''ca'') 62000)) ''s1'' = Some user'
       \<and> startedAt user' = Some 2000 \<and> expiresAt user' = Some 62000 \<and> isTimeUp user'
       \<and> named ''typing-timeup'' (snd (handleTypingUpdate codeUnitCompare (race_state ''cat'' ann_typing)
                ''s1'' (input_of ''ca'') 62000)) =
           [Emit (ToSocket ''s1'') ''typing-timeup'' (UserTimeUp ''RACE2345'' ''Ann'')]
       \<and> named ''user-timeup'' (snd (handleTypingUpdate codeUnitCompare (race_state ''cat'' ann_typing)
                ''s1'' (input_of ''ca'') 62000)) =
           [Emit (ToRoomExcept ''typing:RACE2345'' ''s1'') ''user-timeup'' (UserTimeUp ''RACE2345'' ''Ann'')]
       \<and> run codeUnitCompare (fst (handleTypingUpdate codeUnitCompare (race_state ''cat'' ann_typing)
                ''s1'' (input_of ''ca'') 62000)) (updates_of ''s1'' [(63000, input_of ''cat'')]) =
           (fst (handleTypingUpdate codeUnitCompare (race_state ''cat'' ann_typing)
                ''s1'' (input_of ''ca'') 62000), []))
   \<and> (\<exists>u. participantOf (fst (handleJoinTypingRoom codeUnitCompare (race_state ''cat'' ann_typing) ''s3''
                \<lparr>jp_roomId = Some '' race2345'', jp_username = Some ''Cleo''\<rparr> 5000)) ''s3'' = Some u
       \<and> startedAt u = None \<and> expiresAt u = None)
   \<and> (\<exists>u. participantOf (fst (handleJoinTypingRoom codeUnitCompare (race_state ''cat'' ann_typing) ''s1''
                \<lparr>jp_roomId = Some '' race2345'', jp_username = Some ''Cleo''\<rparr> 5000)) ''s1'' = Some u
       \<and> startedAt u = Some 2000 \<and> expiresAt u = Some 62000)"
proof -
  have fresh: "\<not> terminal ann_fresh"
    by (simp add: terminal_def ann_fresh_def joined_at_def)
  have typing: "\<not> terminal ann_typing"
    by (simp add: terminal_def ann_typing_def ann_fresh_def joined_at_def)
  have room: "normalizeRoomId (jp_roomId \<lparr>jp_roomId = Some '' race2345'', jp_username = Some ''Cleo''\<rparr>)
                = ''RACE2345''"
    by code_simp
  have name: "sanitizeUsername (jp_username \<lparr>jp_roomId = Some '' race2345'', jp_username = Some ''Cleo''\<rparr>)
                = Some ''Cleo''"
    by code_simp
  have nonempty: "''RACE2345'' \<noteq> []"
    by simp
  note first = clock_starts_on_first_update [where st = "race_state ''cat'' ann_fresh"
      and lc = codeUnitCompare and p = "input_of ''c''" and now = 2000 and later = "[]"
      and joiner = "''s3''" and joinTime = 5000,
      OF race_state_participant fresh room nonempty race_state_room name]
  note late = clock_starts_on_first_update [where st = "race_state ''cat'' ann_typing"
      and lc = codeUnitCompare and p = "input_of ''ca''" and now = 62000
      and later = "[(63000, input_of ''cat'')]" and joiner = "''s3''" and joinTime = 5000,
      OF race_state_participant typing room nonempty race_state_room name]
  note rejoin = clock_starts_on_first_update [where st = "race_state ''cat'' ann_typing"
      and lc = codeUnitCompare and p = "input_of ''ca''" and now = 62000
      and later = "[]" and joiner = "''s1''" and joinTime = 5000,
      OF race_state_participant typing room nonempty race_state_room name]
  have a: "\<exists>user'. participantOf (fst (handleTypingUpdate codeUnitCompare (race_state ''cat'' ann_fresh)
                ''s1'' (input_of ''c'') 2000)) ''s1'' = Some user'
       \<and> startedAt user' = Some 2000 \<and> expiresAt user' = Some 62000 \<and> \<not> isTimeUp user'"
    using first
    by (auto simp: truthy_def number_of_def ann_fresh_def joined_at_def TYPING_TIME_LIMIT_SECONDS_def)
  have b: "\<exists>user'. participantOf (fst (handleTypingUpdate codeUnitCompare (race_state ''cat'' ann_typing)
                ''s1'' (input_of ''ca'') 62000)) ''s1'' = Some user'
       \<and> startedAt user' = Some 2000 \<and> expiresAt user' = Some 62000 \<and> isTimeUp user'
       \<and> named ''typing-timeup'' (snd (handleTypingUpdate codeUnitCompare (race_state ''cat'' ann_typing)
                ''s1'' (input_of ''ca'') 62000)) =
           [Emit (ToSocket ''s1'') ''typing-timeup'' (UserTimeUp ''RACE2345'' ''Ann'')]
       \<and> named ''user-timeup'' (snd (handleTypingUpdate codeUnitCompare (race_state ''cat'' ann_typing)
                ''s1'' (input_of ''ca'') 62000)) =
           [Emit (ToRoomExcept ''typing:RACE2345'' ''s1'') ''user-timeup'' (UserTimeUp ''RACE2345'' ''Ann'')]
       \<and> run codeUnitCompare (fst (handleTypingUpdate codeUnitCompare (race_state ''cat'' ann_typing)
                ''s1'' (input_of ''ca'') 62000)) (updates_of ''s1'' [(63000, input_of ''cat'')]) =
           (fst (handleTypingUpdate codeUnitCompare (race_state ''cat'' ann_typing)
                ''s1'' (input_of ''ca'') 62000), [])"
    using late
    by (auto simp: truthy_def number_of_def ann_typing_def ann_fresh_def joined_at_def
        TYPING_TIME_LIMIT_SECONDS_def race_state_reads typing_channel_def)
  have c: "\<exists>u. participantOf (fst (handleJoinTypingRoom codeUnitCompare (race_state ''cat'' ann_typing) ''s3''
                \<lparr>jp_roomId = Some '' race2345'', jp_username = Some ''Cleo''\<rparr> 5000)) ''s3'' = Some u
       \<and> startedAt u = None \<and> expiresAt u = None"
    using late by auto
  have d: "\<exists>u. participantOf (fst (handleJoinTypingRoom codeUnitCompare (race_state ''cat'' ann_typing) ''s1''
                \<lparr>jp_roomId = Some '' race2345'', jp_username = Some ''Cleo''\<rparr> 5000)) ''s1'' = Some u
       \<and> startedAt u = Some 2000 \<and> expiresAt u = Some 62000"
    using rejoin
    by (auto simp: truthy_def or_null_def ann_typing_def ann_fresh_def joined_at_def)
  from a b c d show ?thesis
    by blast
qed

section \<open>Flags and late input\<close>

lemma flagUser_flags: "x \<in> set (flags (flagUser u reason)) \<longleftrightarrow> x = reason \<or> x \<in> set (flags u)"
  by (auto simp: flagUser_def)

lemma flagUser_extends: "\<exists>added. flags (flagUser u reason) = flags u @ added"
  by (simp add: flagUser_def)

lemma applyTypingUpdate_flag_iff:
  "x \<in> set (flags (fst (applyTypingUpdate txt user p now))) \<longleftrightarrow>
     x \<in> set (flags user)
     \<or> (x = ''paste-detected''
         \<and> (pasteSuspected (tu_isPaste p)
               (int (length (safeValueOf txt p)) - int (lastInputLength user)) (now - lastUpdateAt user)
            \<or> deltaReported (tu_delta p)))
     \<or> (x = ''speed-warning''
         \<and> tooFast (int (length (safeValueOf txt p)) - int (lastInputLength user))
              (now - lastUpdateAt user))"
  by (auto simp: applyTypingUpdate_flags Let_def flagUser_flags)

lemma applyTypingUpdate_flags_extend:
  "\<exists>added. flags (fst (applyTypingUpdate txt user p now)) = flags user @ added"
proof -
  have ext: "\<exists>added. flags (if c then flagUser u reason else u) = flags u @ added" for c u reason
    using flagUser_extends [of u reason] by simp
  let ?ld = "int (length (safeValueOf txt p)) - int (lastInputLength user)"
  let ?td = "now - lastUpdateAt user"
  let ?u1 = "if pasteSuspected (tu_isPaste p) ?ld ?td then flagUser user ''paste-detected'' else user"
  let ?u2 = "if tooFast ?ld ?td then flagUser ?u1 ''speed-warning'' else ?u1"
  let ?u3 = "if deltaReported (tu_delta p) then flagUser ?u2 ''paste-detected'' else ?u2"
  obtain a1 where a1: "flags ?u1 = flags user @ a1"
    using ext [of "pasteSuspected (tu_isPaste p) ?ld ?td" user "''paste-detected''"] by blast
  obtain a2 where a2: "flags ?u2 = flags ?u1 @ a2"
    using ext [of "tooFast ?ld ?td" ?u1 "''speed-warning''"] by blast
  obtain a3 where a3: "flags ?u3 = flags ?u2 @ a3"
    using ext [of "deltaReported (tu_delta p)" ?u2 "''paste-detected''"] by blast
  have "flags (fst (applyTypingUpdate txt user p now)) = flags ?u3"
    by (simp add: applyTypingUpdate_flags Let_def)
  with a1 a2 a3 have "flags (fst (applyTypingUpdate txt user p now)) = flags user @ (a1 @ a2 @ a3)"
    by simp
  then show ?thesis ..
qed

text \<open>
  Claim C10. An update that arrives when the participant's deadline has passed, the
  participant not yet being terminal, is processed in full: score, correct characters
  and typed length are computed from its value, the flags from its length and timing,
  and the completion check runs, so the participant is completed by it exactly when the
  value reaches a non-empty prompt's length (with the \<open>user-finished\<close> notice); the same
  update then marks the participant as timed out and emits \<open>typing-timeup\<close>.
\<close>

theorem late_input_is_processed_before_timeout:
  assumes "participantOf st socket = Some user" and "\<not> terminal user"
    and "truthy (startedAt user)" and "truthy (expiresAt user)"
    and "number_of (expiresAt user) \<le> now"
  shows "\<exists>user'. participantOf (fst (handleTypingUpdate lc st socket p now)) socket = Some user'
           \<and> score user' = fst (computeScore (Some (promptOf st socket))
                                   (Some (safeValueOf (promptOf st socket) p)))
           \<and> correctChars user' = fst (snd (computeScore (Some (promptOf st socket))
                                               (Some (safeValueOf (promptOf st socket) p))))
           \<and> typedLength user' = length (safeValueOf (promptOf st socket) p)
           \<and> (''paste-detected'' \<in> set (flags user') \<longleftrightarrow>
                ''paste-detected'' \<in> set (flags user)
                \<or> pasteSuspected (tu_isPaste p)
                     (int (length (safeValueOf (promptOf st socket) p)) - int (lastInputLength user))
                     (now - lastUpdateAt user)
                \<or> deltaReported (tu_delta p))
           \<and> (''speed-warning'' \<in> set (flags user') \<longleftrightarrow>
                ''speed-warning'' \<in> set (flags user)
                \<or> tooFast (int (length (safeValueOf (promptOf st socket) p)) - int (lastInputLength user))
                     (now - lastUpdateAt user))
           \<and> isCompleted user' =
               (length (promptOf st socket) \<le> length (rawValueOf p) \<and> 0 < length (promptOf st socket))
           \<and> isTimeUp user'
           \<and> named ''user-finished'' (snd (handleTypingUpdate lc st socket p now)) =
               (if isCompleted user'
                then [Emit (ToRoom (typing_channel (roomOf st socket))) ''user-finished''
                        (UserFinished (roomOf st socket) (username user) now)]
                else [])
           \<and> named ''typing-timeup'' (snd (handleTypingUpdate lc st socket p now)) =
               [Emit (ToSocket socket) ''typing-timeup'' (UserTimeUp (roomOf st socket) (username user))]"
proof -
  let ?txt = "promptOf st socket"
  let ?after = "handleTypingUpdate lc st socket p now"
  let ?user' = "fst (applyTypingUpdate ?txt user p now)"
  have idle: "\<not> isCompleted user" "\<not> isTimeUp user"
    using assms(2) by (simp_all add: terminal_def)
  have after: "participantOf (fst ?after) socket = Some ?user'"
    by (rule update_after(1) [OF assms(1,2)])
  have expired: "expiredThisUpdate (startClock user now) now"
    using assms(3-5) by (simp add: expiredThisUpdate_def startClock_def)
  have completed: "isCompleted ?user' = (length ?txt \<le> length (rawValueOf p) \<and> 0 < length ?txt)"
    using idle by (simp add: applyTypingUpdate_isCompleted reaches_prompt)
  have finished: "fst (snd (applyTypingUpdate ?txt user p now)) = isCompleted ?user'"
    using idle by (simp add: applyTypingUpdate_finished applyTypingUpdate_isCompleted)
  have timeup: "isTimeUp ?user'"
    using expired by (simp add: applyTypingUpdate_isTimeUp)
  have timedOut: "snd (snd (applyTypingUpdate ?txt user p now))"
    using expired idle by (simp add: applyTypingUpdate_timedOut)
  have notice: "named ''user-finished'' (snd ?after) =
               (if isCompleted ?user'
                then [Emit (ToRoom (typing_channel (roomOf st socket))) ''user-finished''
                        (UserFinished (roomOf st socket) (username user) now)]
                else [])"
    by (simp only: update_notices(1) [OF assms(1,2)] finished)
  have self: "named ''typing-timeup'' (snd ?after) =
               [Emit (ToSocket socket) ''typing-timeup'' (UserTimeUp (roomOf st socket) (username user))]"
    using timedOut by (simp only: update_notices(2) [OF assms(1,2)] if_True)
  have paste: "''paste-detected'' \<in> set (flags ?user') \<longleftrightarrow>
                ''paste-detected'' \<in> set (flags user)
                \<or> pasteSuspected (tu_isPaste p)
                     (int (length (safeValueOf ?txt p)) - int (lastInputLength user))
                     (now - lastUpdateAt user)
                \<or> deltaReported (tu_delta p)"
    by (simp add: applyTypingUpdate_flag_iff)
  have speed: "''speed-warning'' \<in> set (flags ?user') \<longleftrightarrow>
                ''speed-warning'' \<in> set (flags user)
                \<or> tooFast (int (length (safeValueOf ?txt p)) - int (lastInputLength user))
                     (now - lastUpdateAt user)"
    by (simp add: applyTypingUpdate_flag_iff)
  from after completed timeup notice self paste speed show ?thesis
    by (intro exI [of _ ?user'] conjI) (simp_all add: applyTypingUpdate_score)
qed

theorem late_input_is_processed_before_timeout_witness:
  "\<exists>user'. participantOf (fst (handleTypingUpdate codeUnitCompare (race_state ''cat'' ann_typing)
               ''s1'' (input_of ''cat'') 70000)) ''s1'' = Some user'
      \<and> score user' = 3 \<and> correctChars user' = 3 \<and> typedLength user' = 3
      \<and> isCompleted user' \<and> isTimeUp user'
      \<and> named ''user-finished'' (snd (handleTypingUpdate codeUnitCompare (race_state ''cat'' ann_typing)
               ''s1'' (input_of ''cat'') 70000)) =
           [Emit (ToRoom ''typing:RACE2345'') ''user-finished'' (UserFinished ''RACE2345'' ''Ann'' 70000)]
      \<and> named ''typing-timeup'' (snd (handleTypingUpdate codeUnitCompare (race_state ''cat'' ann_typing)
               ''s1'' (input_of ''cat'') 70000)) =
           [Emit (ToSocket ''s1'') ''typing-timeup'' (UserTimeUp ''RACE2345'' ''Ann'')]"
proof -
  have typing: "\<not> terminal ann_typing"
    by (simp add: terminal_def ann_typing_def ann_fresh_def joined_at_def)
  have started: "truthy (startedAt ann_typing)" and limited: "truthy (expiresAt ann_typing)"
    by (simp_all add: truthy_def ann_typing_def)
  have late: "number_of (expiresAt ann_typing) \<le> 70000"
    by (simp add: number_of_def ann_typing_def)
  have val: "safeValueOf ''cat'' (input_of ''cat'') = ''cat''" "rawValueOf (input_of ''cat'') = ''cat''"
    by (simp_all add: safeValueOf_def rawValueOf_def input_of_def)
  have points: "computeScore (Some ''cat'') (Some ''cat'') = (3, 3, 3)"
    by code_simp
  from late_input_is_processed_before_timeout [where st = "race_state ''cat'' ann_typing"
      and lc = codeUnitCompare and p = "input_of ''cat''" and now = 70000,
      OF race_state_participant typing started limited late]
  show ?thesis
    by (auto simp: race_state_reads val points typing_channel_def ann_typing_def ann_fresh_def
        joined_at_def)
qed

section \<open>Completion\<close>

lemma emptyPromptUncompleted_cong:
  assumes "rel_option (\<lambda>a b. users a = users b \<and> roomText a = roomText b)
             (typingRooms st' r) (typingRooms st r)"
  shows "emptyPromptUncompleted r st' = emptyPromptUncompleted r st"
  using assms by (auto simp: emptyPromptUncompleted_def option_rel_Some1 split: option.splits)

lemma same_rooms:
  "typingRooms st' = typingRooms st \<Longrightarrow>
   rel_option (\<lambda>a b. users a = users b \<and> roomText a = roomText b) (typingRooms st' r) (typingRooms st r)"
  by (simp add: option.rel_refl)

lemma removeSocketFromRoom_typingRooms:
  "removeSocketFromRoom st socket = (st', removal) \<Longrightarrow> typingRooms st' = typingRooms st"
  by (auto simp: removeSocketFromRoom_def Let_def split: option.splits if_splits)

lemma handleLeaveRoom_typingRooms:
  "handleLeaveRoom st socket = (st', out) \<Longrightarrow> typingRooms st' = typingRooms st"
  by (auto simp: handleLeaveRoom_def Let_def split: option.splits prod.splits if_splits
      dest: removeSocketFromRoom_typingRooms)

lemma handleJoinRoom_typingRooms:
  "handleJoinRoom st socket rawRoomId = (st', out) \<Longrightarrow> typingRooms st' = typingRooms st"
  by (auto simp: handleJoinRoom_def Let_def split: option.splits prod.splits if_splits
      dest: handleLeaveRoom_typingRooms)

lemma resolveTypingContext_SomeD:
  "resolveTypingContext st socket override = Some (r, room) \<Longrightarrow>
   typingRooms st r = Some room \<and> r \<noteq> []"
  by (auto simp: resolveTypingContext_def Let_def split: option.splits if_splits)

lemma handleJoinTypingVoice_rooms:
  "rel_option (\<lambda>a b. users a = users b \<and> roomText a = roomText b)
     (typingRooms (fst (handleJoinTypingVoice st socket now)) r) (typingRooms st r)"
  by (auto simp: handleJoinTypingVoice_def Let_def option.rel_refl
      split: option.splits prod.splits dest: resolveTypingContext_SomeD)

lemma handleLeaveTypingVoice_rooms:
  "rel_option (\<lambda>a b. users a = users b \<and> roomText a = roomText b)
     (typingRooms (fst (handleLeaveTypingVoice st socket override silent)) r) (typingRooms st r)"
  by (auto simp: handleLeaveTypingVoice_def Let_def option.rel_refl
      split: option.splits prod.splits dest: resolveTypingContext_SomeD)

lemma handleLeaveTypingVoice_pair:
  "handleLeaveTypingVoice st socket override silent = (st', out) \<Longrightarrow>
   emptyPromptUncompleted r st' = emptyPromptUncompleted r st"
  using handleLeaveTypingVoice_rooms [of st socket override silent r]
  by (simp add: emptyPromptUncompleted_cong)

lemma list_all_update:
  "list_all P al \<Longrightarrow> P (k, v) \<Longrightarrow> list_all P (AList.update k v al)"
  by (induction al) auto

lemma list_all_delete: "list_all P al \<Longrightarrow> list_all P (AList.delete k al)"
  by (induction al) auto

lemma map_of_list_all: "list_all P al \<Longrightarrow> map_of al k = Some v \<Longrightarrow> P (k, v)"
  by (induction al) (auto split: if_splits)

lemma createTypingRoom_keeps:
  "emptyPromptUncompleted r st \<Longrightarrow> emptyPromptUncompleted r (createTypingRoom st r' txt)"
  by (simp add: emptyPromptUncompleted_def createTypingRoom_def)

lemma handleJoinTypingRoom_keeps:
  assumes "emptyPromptUncompleted r st"
  shows "emptyPromptUncompleted r (fst (handleJoinTypingRoom lc st socket jp now))"
proof (cases "normalizeRoomId (jp_roomId jp) = r \<and> r \<noteq> []")
  case False
  with assms show ?thesis
    by (auto simp: handleJoinTypingRoom_def Let_def emptyPromptUncompleted_def split: option.splits)
next
  case True
  show ?thesis
  proof (cases "typingRooms st r")
    case None
    with True assms show ?thesis
      by (simp add: handleJoinTypingRoom_def Let_def)
  next
    case (Some room)
    show ?thesis
    proof (cases "sanitizeUsername (jp_username jp)")
      case None
      with True Some assms show ?thesis
        by (simp add: handleJoinTypingRoom_def Let_def)
    next
      case (Some name)
      from assms \<open>typingRooms st r = Some room\<close>
      have old: "roomText room \<noteq> [] \<or> list_all (\<lambda>entry. \<not> isCompleted (snd entry)) (users room)"
        by (simp add: emptyPromptUncompleted_def)
      show ?thesis
      proof (cases "roomText room = []")
        case False
        with True Some \<open>typingRooms st r = Some room\<close> show ?thesis
          by (simp add: handleJoinTypingRoom_def Let_def emptyPromptUncompleted_def)
      next
        case True
        with old have all: "list_all (\<lambda>entry. \<not> isCompleted (snd entry)) (users room)"
          by simp
        have "\<not> (case map_of (users room) socket of None \<Rightarrow> False | Some u \<Rightarrow> isCompleted u)"
          using map_of_list_all [OF all, of socket] by (auto split: option.splits)
        with all \<open>normalizeRoomId (jp_roomId jp) = r \<and> r \<noteq> []\<close> Some
          \<open>typingRooms st r = Some room\<close> show ?thesis
          by (simp add: handleJoinTypingRoom_def Let_def emptyPromptUncompleted_def list_all_update)
      qed
    qed
  qed
qed

lemma handleTypingUpdate_keeps:
  assumes "emptyPromptUncompleted r st"
  shows "emptyPromptUncompleted r (fst (handleTypingUpdate lc st socket p now))"
proof (cases "participantOf st socket")
  case None
  with assms show ?thesis
    by (auto simp: handleTypingUpdate_def participantOf_def emptyPromptUncompleted_def
        split: option.splits if_splits)
next
  case (Some user)
  show ?thesis
  proof (cases "terminal user")
    case True
    with Some assms show ?thesis
      by (simp add: handleTypingUpdate_terminal)
  next
    case False
    from Some obtain r' room where ctx: "typingSocketRoomMap st socket = Some r'" "r' \<noteq> []"
        "typingRooms st r' = Some room" "map_of (users room) socket = Some user"
      by (rule participantOf_SomeD)
    note step = handleTypingUpdate_active [OF ctx False, of lc p now]
    show ?thesis
    proof (cases "r' = r \<and> roomText room = []")
      case False
      with assms ctx show ?thesis
        by (auto simp: step Let_def emptyPromptUncompleted_def)
    next
      case True
      with assms ctx have all: "list_all (\<lambda>entry. \<not> isCompleted (snd entry)) (users room)"
        by (simp add: emptyPromptUncompleted_def)
      from map_of_list_all [OF all ctx(4)] have "\<not> isCompleted user"
        by simp
      with True have "\<not> isCompleted (fst (applyTypingUpdate (roomText room) user p now))"
        by (simp add: applyTypingUpdate_isCompleted)
      with all True ctx show ?thesis
        by (simp add: step Let_def emptyPromptUncompleted_def list_all_update)
    qed
  qed
qed

lemma handleLeaveTypingRoom_keeps:
  assumes "emptyPromptUncompleted r st"
  shows "emptyPromptUncompleted r (fst (handleLeaveTypingRoom lc st socket))"
proof (cases "typingSocketRoomMap st socket")
  case None
  with assms show ?thesis
    by (simp add: handleLeaveTypingRoom_def)
next
  case (Some r')
  show ?thesis
  proof (cases "r' = []")
    case True
    with Some assms show ?thesis
      by (simp add: handleLeaveTypingRoom_def)
  next
    case False
    obtain st1 left where voice: "handleLeaveTypingVoice st socket (Some r') False = (st1, left)"
      by (cases "handleLeaveTypingVoice st socket (Some r') False")
    from handleLeaveTypingVoice_pair [OF voice, of r] assms
    have inv1: "emptyPromptUncompleted r st1"
      by simp
    show ?thesis
    proof (cases "typingRooms st1 r'")
      case None
      with Some False voice inv1 show ?thesis
        by (simp add: handleLeaveTypingRoom_def Let_def emptyPromptUncompleted_def)
    next
      case (Some room)
      show ?thesis
      proof (cases "r' = r")
        case False
        with \<open>typingSocketRoomMap st socket = Some r'\<close> \<open>r' \<noteq> []\<close> voice inv1 Some show ?thesis
          by (simp add: handleLeaveTypingRoom_def Let_def emptyPromptUncompleted_def)
      next
        case True
        with inv1 Some
        have old: "roomText room \<noteq> [] \<or> list_all (\<lambda>entry. \<not> isCompleted (snd entry)) (users room)"
          by (simp add: emptyPromptUncompleted_def)
        then have "roomText room \<noteq> []
            \<or> list_all (\<lambda>entry. \<not> isCompleted (snd entry)) (AList.delete socket (users room))"
          by (auto intro: list_all_delete)
        with True \<open>typingSocketRoomMap st socket = Some r'\<close> \<open>r' \<noteq> []\<close> voice Some show ?thesis
          by (simp add: handleLeaveTypingRoom_def Let_def emptyPromptUncompleted_def)
      qed
    qed
  qed
qed

lemma on_event_keeps:
  assumes "emptyPromptUncompleted r st"
  shows "emptyPromptUncompleted r (fst (on_event lc st socket now e))"
proof (cases e)
  case (JoinRoom raw)
  obtain st' out where res: "handleJoinRoom st socket raw = (st', out)"
    by (cases "handleJoinRoom st socket raw")
  from handleJoinRoom_typingRooms [OF res] assms JoinRoom res show ?thesis
    by (simp add: emptyPromptUncompleted_def)
next
  case LeaveRoom
  obtain st' out where res: "handleLeaveRoom st socket = (st', out)"
    by (cases "handleLeaveRoom st socket")
  from handleLeaveRoom_typingRooms [OF res] assms LeaveRoom res show ?thesis
    by (simp add: emptyPromptUncompleted_def)
next
  case (JoinTypingRoom jp)
  with assms show ?thesis
    by (simp add: handleJoinTypingRoom_keeps)
next
  case (TypingUpdate p)
  with assms show ?thesis
    by (simp add: handleTypingUpdate_keeps)
next
  case LeaveTypingRoom
  with assms show ?thesis
    by (simp add: handleLeaveTypingRoom_keeps)
next
  case JoinVoice
  with assms handleJoinTypingVoice_rooms [of st socket now r] show ?thesis
    by (simp add: emptyPromptUncompleted_cong)
next
  case LeaveVoice
  with assms handleLeaveTypingVoice_rooms [of st socket None False r] show ?thesis
    by (simp add: emptyPromptUncompleted_cong)
next
  case Disconnect
  let ?st0 = "st\<lparr>channels := (channels st)(socket := {})\<rparr>"
  obtain st1 left where res: "handleLeaveRoom ?st0 socket = (st1, left)"
    by (cases "handleLeaveRoom ?st0 socket")
  from handleLeaveRoom_typingRooms [OF res] assms have "emptyPromptUncompleted r st1"
    by (simp add: emptyPromptUncompleted_def)
  from handleLeaveTypingRoom_keeps [OF this, of lc socket] Disconnect res show ?thesis
    by (simp add: Let_def case_prod_beta)
qed (use assms in simp_all)

lemma serve_keeps:
  "emptyPromptUncompleted r st \<Longrightarrow> emptyPromptUncompleted r (fst (serve lc st i))"
  by (cases i) (simp_all add: on_event_keeps createTypingRoom_keeps)

lemma run_keeps:
  "emptyPromptUncompleted r st \<Longrightarrow> emptyPromptUncompleted r (fst (run lc st inputs))"
proof (induction inputs arbitrary: st)
  case Nil
  then show ?case by simp
next
  case (Cons i inputs)
  from Cons.IH [OF serve_keeps [OF Cons.prems, of lc i]] show ?case
    by (simp add: Let_def case_prod_beta)
qed

text \<open>
  Claim C6. A participant who is not terminal becomes completed on the update whose
  typed length reaches the length of a non-empty prompt, and on no other: that update
  records the clock as \<open>completionTime\<close> and emits one \<open>user-finished\<close> notice to the room,
  and every later update of the participant is ignored, so completion is entered once.
  In a room whose prompt is empty no participant ever becomes completed, whatever the
  server receives.
\<close>

theorem completion_happens_once:
  assumes "participantOf st socket = Some user" and "\<not> terminal user"
    and "emptyPromptUncompleted r st0"
  shows "(\<exists>user'. participantOf (fst (handleTypingUpdate lc st socket p now)) socket = Some user'
            \<and> isCompleted user' =
                (length (promptOf st socket) \<le> typedLength user' \<and> 0 < length (promptOf st socket))
            \<and> completionTime user' = (if isCompleted user' then Some now else completionTime user)
            \<and> named ''user-finished'' (snd (handleTypingUpdate lc st socket p now)) =
                (if isCompleted user'
                 then [Emit (ToRoom (typing_channel (roomOf st socket))) ''user-finished''
                         (UserFinished (roomOf st socket) (username user) now)]
                 else [])
            \<and> (isCompleted user' \<longrightarrow>
                 run lc (fst (handleTypingUpdate lc st socket p now)) (updates_of socket later) =
                   (fst (handleTypingUpdate lc st socket p now), [])))
       \<and> emptyPromptUncompleted r (fst (run lc st0 inputs))"
proof -
  let ?txt = "promptOf st socket"
  let ?after = "handleTypingUpdate lc st socket p now"
  let ?user' = "fst (applyTypingUpdate ?txt user p now)"
  have idle: "\<not> isCompleted user"
    using assms(2) by (simp add: terminal_def)
  have after: "participantOf (fst ?after) socket = Some ?user'"
    by (rule update_after(1) [OF assms(1,2)])
  have completed: "isCompleted ?user' = (length ?txt \<le> typedLength ?user' \<and> 0 < length ?txt)"
    using idle by (simp add: applyTypingUpdate_isCompleted applyTypingUpdate_score)
  have finished: "fst (snd (applyTypingUpdate ?txt user p now)) = isCompleted ?user'"
    using idle by (simp add: applyTypingUpdate_finished applyTypingUpdate_isCompleted)
  have time: "completionTime ?user' = (if isCompleted ?user' then Some now else completionTime user)"
    by (simp only: applyTypingUpdate_completionTime finished)
  have notice: "named ''user-finished'' (snd ?after) =
                (if isCompleted ?user'
                 then [Emit (ToRoom (typing_channel (roomOf st socket))) ''user-finished''
                         (UserFinished (roomOf st socket) (username user) now)]
                 else [])"
    by (simp only: update_notices(1) [OF assms(1,2)] finished)
  have once: "isCompleted ?user' \<longrightarrow> run lc (fst ?after) (updates_of socket later) = (fst ?after, [])"
  proof
    assume "isCompleted ?user'"
    then have "terminal ?user'"
      by (simp add: terminal_def)
    with after show "run lc (fst ?after) (updates_of socket later) = (fst ?after, [])"
      by (rule run_updates_terminal)
  qed
  have never: "emptyPromptUncompleted r (fst (run lc st0 inputs))"
    using assms(3) by (rule run_keeps)
  from after completed time notice once never show ?thesis
    by blast
qed

theorem completion_happens_once_witness:
  "(\<exists>user'. participantOf (fst (handleTypingUpdate codeUnitCompare (race_state ''cat'' ann_typing)
                ''s1'' (input_of ''cat'') 3000)) ''s1'' = Some user'
       \<and> isCompleted user' \<and> completionTime user' = Some 3000
       \<and> named ''user-finished'' (snd (handleTypingUpdate codeUnitCompare (race_state ''cat'' ann_typing)
                ''s1'' (input_of ''cat'') 3000)) =
           [Emit (ToRoom ''typing:RACE2345'') ''user-finished'' (UserFinished ''RACE2345'' ''Ann'' 3000)]
       \<and> run codeUnitCompare (fst (handleTypingUpdate codeUnitCompare (race_state ''cat'' ann_typing)
                ''s1'' (input_of ''cat'') 3000)) (updates_of ''s1'' [(4000, input_of ''cats'')]) =
           (fst (handleTypingUpdate codeUnitCompare (race_state ''cat'' ann_typing)
                ''s1'' (input_of ''cat'') 3000), []))
   \<and> promptOf (race_state [] ann_fresh) ''s1'' = []
   \<and> emptyPromptUncompleted ''RACE2345''
        (fst (run codeUnitCompare (race_state [] ann_fresh)
           [FromSocket ''s1'' 2000 (TypingUpdate (input_of ''abc'')),
            FromSocket ''s2'' 2500 (TypingUpdate (input_of []))]))"
proof -
  have typing: "\<not> terminal ann_typing"
    by (simp add: terminal_def ann_typing_def ann_fresh_def joined_at_def)
  have empty: "emptyPromptUncompleted ''RACE2345'' (race_state [] ann_fresh)"
    by (simp add: emptyPromptUncompleted_def race_state_def empty_state_def ann_fresh_def joined_at_def)
  note inst = completion_happens_once [where st = "race_state ''cat'' ann_typing"
      and lc = codeUnitCompare and p = "input_of ''cat''" and now = 3000
      and later = "[(4000, input_of ''cats'')]" and ?st0.0 = "race_state [] ann_fresh"
      and inputs = "[FromSocket ''s1'' 2000 (TypingUpdate (input_of ''abc'')),
            FromSocket ''s2'' 2500 (TypingUpdate (input_of []))]",
      OF race_state_participant typing empty]
  from inst obtain u where present:
      "participantOf (fst (handleTypingUpdate codeUnitCompare (race_state ''cat'' ann_typing)
          ''s1'' (input_of ''cat'') 3000)) ''s1'' = Some u"
    and completed: "isCompleted u =
      (length (promptOf (race_state ''cat'' ann_typing) ''s1'') \<le> typedLength u
       \<and> 0 < length (promptOf (race_state ''cat'' ann_typing) ''s1''))"
    and time: "completionTime u = (if isCompleted u then Some 3000 else completionTime ann_typing)"
    and notice: "named ''user-finished'' (snd (handleTypingUpdate codeUnitCompare
          (race_state ''cat'' ann_typing) ''s1'' (input_of ''cat'') 3000)) =
        (if isCompleted u
         then [Emit (ToRoom (typing_channel (roomOf (race_state ''cat'' ann_typing) ''s1'')))
                 ''user-finished''
                 (UserFinished (roomOf (race_state ''cat'' ann_typing) ''s1'') (username ann_typing) 3000)]
         else [])"
    and once: "isCompleted u \<longrightarrow>
        run codeUnitCompare (fst (handleTypingUpdate codeUnitCompare (race_state ''cat'' ann_typing)
                ''s1'' (input_of ''cat'') 3000)) (updates_of ''s1'' [(4000, input_of ''cats'')]) =
           (fst (handleTypingUpdate codeUnitCompare (race_state ''cat'' ann_typing)
                ''s1'' (input_of ''cat'') 3000), [])"
    by blast
  from inst have never: "emptyPromptUncompleted ''RACE2345''
        (fst (run codeUnitCompare (race_state [] ann_fresh)
           [FromSocket ''s1'' 2000 (TypingUpdate (input_of ''abc'')),
            FromSocket ''s2'' 2500 (TypingUpdate (input_of []))]))"
    by blast
  have "u = fst (applyTypingUpdate ''cat'' ann_typing (input_of ''cat'') 3000)"
    using present update_after(1) [where st = "race_state ''cat'' ann_typing"
        and lc = codeUnitCompare and p = "input_of ''cat''" and now = 3000,
        OF race_state_participant typing]
    by (simp add: race_state_reads)
  then have "typedLength u = 3"
    by (simp add: applyTypingUpdate_score safeValueOf_def rawValueOf_def input_of_def)
  with completed have c: "isCompleted u"
    by (simp add: race_state_reads)
  have name: "username ann_typing = ''Ann''"
    by (simp add: ann_typing_def ann_fresh_def joined_at_def)
  from c present time notice once never show ?thesis
    by (simp add: race_state_reads typing_channel_def name)
qed

section \<open>Voice\<close>








section \<open>Signaling\<close>

lemma forwardTypingVoiceSignal_same_room:
  assumes "e \<in> set (forwardTypingVoiceSignal st socket name payload)"
  shows "\<exists>target r. targetId payload = Some target
           \<and> typingSocketRoomMap st socket = Some r \<and> typingSocketRoomMap st target = Some r
           \<and> e = Emit (ToRoom target) name
                   (TypingSignal socket (offer payload) (answer payload) (candidate payload))"
  using assms
  by (auto simp: forwardTypingVoiceSignal_def split: option.splits if_splits)

lemma forwardTypingVoiceSignal_dropped:
  assumes "typingSocketRoomMap st socket = None \<or> typingSocketRoomMap st target = None
           \<or> typingSocketRoomMap st socket \<noteq> typingSocketRoomMap st target"
    and "targetId payload = Some target"
  shows "forwardTypingVoiceSignal st socket name payload = []"
  using assms
  by (auto simp: forwardTypingVoiceSignal_def split: option.splits if_splits)

text \<open>
  Claim C1. The relay delivers a signaling payload only between two sockets bound to the
  same room. \<open>forwardTypingVoiceSignal\<close> does so (the two lemmas above); the handlers of
  the canvas events \<open>offer\<close>, \<open>answer\<close> and \<open>ice-candidate\<close> never look at \<open>socketRoomMap\<close>:
  here \<open>s1\<close>, bound to \<open>DRAWAAAA\<close>, reaches \<open>s3\<close>, bound to \<open>DRAWBBBB\<close>, with all three.
\<close>

theorem canvas_signal_crosses_rooms:
  "socketRoomMap two_rooms ''s1'' = Some ''DRAWAAAA''
   \<and> socketRoomMap two_rooms ''s3'' = Some ''DRAWBBBB''
   \<and> handleOffer two_rooms ''s1'' (signal_to ''s3'') =
       [Emit (ToRoom ''s3'') ''offer'' (CanvasSignal ''s1'' (SignalData ''sdp''))]
   \<and> handleAnswer two_rooms ''s1'' (signal_to ''s3'') =
       [Emit (ToRoom ''s3'') ''answer'' (CanvasSignal ''s1'' (SignalData ''sdp''))]
   \<and> handleIceCandidate two_rooms ''s1'' (signal_to ''s3'') =
       [Emit (ToRoom ''s3'') ''ice-candidate'' (CanvasSignal ''s1'' (SignalData ''sdp''))]"
  by (simp add: two_rooms_def empty_state_def handleOffer_def handleAnswer_def
      handleIceCandidate_def signal_to_def)

section \<open>Joining a canvas room\<close>

lemma handleJoinRoom_missing_id:
  assumes "normalizeRoomId rawRoomId = []"
  shows "handleJoinRoom st socket rawRoomId =
           (st, [Emit (ToSocket socket) ''room-error'' (ErrorMessage ''Room ID is required'')])"
  using assms by (simp add: handleJoinRoom_def)

lemma handleJoinRoom_unknown_room:
  assumes "normalizeRoomId rawRoomId = r" and "r \<noteq> []" and "Room st r = None"
    and "socketRoomMap st socket = None \<or> socketRoomMap st socket = Some [] \<or> socketRoomMap st socket = Some r"
  shows "handleJoinRoom st socket rawRoomId =
           (st, [Emit (ToSocket socket) ''room-error'' (ErrorMessage ''Room not found'')])"
  using assms by (auto simp: handleJoinRoom_def Let_def)

text \<open>
  Claim C8. A join request for a room that does not exist is answered with an error to
  the requester and changes nothing. It holds when the id is missing and when the
  requester is in no other room (the two lemmas above). \<open>handleJoinRoom\<close> leaves the
  requester's current room before it looks the new one up: \<open>s1\<close>, in \<open>DRAWAAAA\<close> with
  \<open>s2\<close>, asks for the unknown \<open>ZZZZ9999\<close> and is taken out of \<open>DRAWAAAA\<close>, whose other
  member is told so.
\<close>

theorem failed_join_leaves_current_room:
  "Room two_rooms ''ZZZZ9999'' = None
   \<and> socketRoomMap two_rooms ''s1'' = Some ''DRAWAAAA''
   \<and> map_option doc_users (Room two_rooms ''DRAWAAAA'') = Some [''s1'', ''s2'']
   \<and> socketRoomMap (fst (handleJoinRoom two_rooms ''s1'' (Some ''zzzz9999''))) ''s1'' = None
   \<and> map_option doc_users (Room (fst (handleJoinRoom two_rooms ''s1'' (Some ''zzzz9999''))) ''DRAWAAAA'') =
       Some [''s2'']
   \<and> channels (fst (handleJoinRoom two_rooms ''s1'' (Some ''zzzz9999''))) ''s1'' = {}
   \<and> snd (handleJoinRoom two_rooms ''s1'' (Some ''zzzz9999'')) =
       [Emit (ToRoomExcept ''DRAWAAAA'' ''s1'') ''user-left'' (MemberNotice ''DRAWAAAA'' ''s1''),
        Emit (ToRoom ''DRAWAAAA'') ''user-count-update'' (UserCount ''DRAWAAAA'' 1),
        Emit (ToSocket ''s1'') ''room-error'' (ErrorMessage ''Room not found'')]"
proof -
  have id: "normalizeRoomId (Some ''zzzz9999'') = ''ZZZZ9999''"
    by code_simp
  show ?thesis
    by (simp add: handleJoinRoom_def handleLeaveRoom_def removeSocketFromRoom_def id Let_def
        two_rooms_def empty_state_def)
qed

section \<open>The leaderboard\<close>

lemma finishedAt_cases:
  "finishedAt a = (if truthy (lb_completionTime a) then Some (number_of (lb_completionTime a)) else None)"
  by (auto simp: finishedAt_def or_null_def truthy_def number_of_def split: option.splits)

lemma leaderboardCompare_alt:
  "leaderboardCompare lc a b =
     (if lb_score b \<noteq> lb_score a then lb_score b - lb_score a
      else case (finishedAt a, finishedAt b) of
             (Some s, Some t) \<Rightarrow> s - t
           | (Some s, None) \<Rightarrow> - 1
           | (None, Some t) \<Rightarrow> 1
           | (None, None) \<Rightarrow> lc (lb_username a) (lb_username b))"
  by (simp add: leaderboardCompare_def finishedAt_cases)

lemma collation_flip: "collation lc \<Longrightarrow> (lc x y < 0) = (0 < lc y x)"
  by (simp add: collation_def)

lemma collation_trans: "collation lc \<Longrightarrow> lc x y \<le> 0 \<Longrightarrow> lc y z \<le> 0 \<Longrightarrow> lc x z \<le> 0"
  unfolding collation_def by blast

lemma compare_flip:
  assumes "collation lc"
  shows "(leaderboardCompare lc a b < 0) = (0 < leaderboardCompare lc b a)"
  using collation_flip [OF assms, of "lb_username a" "lb_username b"]
  by (auto simp: leaderboardCompare_alt split: option.splits)

lemma compare_trans:
  assumes "collation lc" and "leaderboardCompare lc a b \<le> 0" and "leaderboardCompare lc b c \<le> 0"
  shows "leaderboardCompare lc a c \<le> 0"
  using assms(2,3) collation_trans [OF assms(1), of "lb_username a" "lb_username b" "lb_username c"]
  by (auto simp: leaderboardCompare_alt split: option.splits if_splits)

lemma compare_total:
  assumes "collation lc"
  shows "leaderboardCompare lc a b \<le> 0 \<or> leaderboardCompare lc b a \<le> 0"
  using compare_flip [OF assms, of a b] compare_flip [OF assms, of b a] by linarith

lemma before_spec: "before lc a b \<Longrightarrow> spec_before lc a b"
  by (auto simp: before_def spec_before_def leaderboardCompare_alt split: option.splits if_splits)

lemma separated_before:
  assumes "collation lc" and "separated lc a b"
  shows "before lc a b \<or> before lc b a"
  using assms(2) collation_flip [OF assms(1), of "lb_username a" "lb_username b"]
    collation_flip [OF assms(1), of "lb_username b" "lb_username a"]
  by (auto simp: before_def separated_def leaderboardCompare_alt split: option.splits if_splits)

lemma before_asym:
  assumes "collation lc"
  shows "\<not> (before lc a b \<and> before lc b a)"
  using compare_flip [OF assms, of a b] by (auto simp: before_def)

lemma mset_insertBy: "mset (insertBy cmp x ys) = add_mset x (mset ys)"
  by (induction ys) auto

lemma mset_sortBy: "mset (sortBy cmp xs) = mset xs"
  by (induction xs) (auto simp: mset_insertBy)

lemma set_insertBy: "set (insertBy cmp x ys) = insert x (set ys)"
  by (induction ys) auto

lemma sorted_insertBy:
  assumes total: "\<And>a b. cmp a b \<le> 0 \<or> cmp b a \<le> 0"
    and trans: "\<And>a b c. cmp a b \<le> 0 \<Longrightarrow> cmp b c \<le> 0 \<Longrightarrow> cmp a c \<le> (0::int)"
    and "sorted_wrt (\<lambda>a b. cmp a b \<le> 0) ys"
  shows "sorted_wrt (\<lambda>a b. cmp a b \<le> 0) (insertBy cmp x ys)"
  using assms(3)
proof (induction ys)
  case Nil
  then show ?case by simp
next
  case (Cons y ys)
  show ?case
  proof (cases "cmp x y \<le> 0")
    case True
    with Cons.prems show ?thesis
      by (auto intro: trans)
  next
    case False
    with total [of x y] have "cmp y x \<le> 0"
      by simp
    with False Cons show ?thesis
      by (auto simp: set_insertBy)
  qed
qed

lemma sorted_sortBy:
  assumes "\<And>a b. cmp a b \<le> 0 \<or> cmp b a \<le> 0"
    and "\<And>a b c. cmp a b \<le> 0 \<Longrightarrow> cmp b c \<le> 0 \<Longrightarrow> cmp a c \<le> (0::int)"
  shows "sorted_wrt (\<lambda>a b. cmp a b \<le> 0) (sortBy cmp xs)"
  by (induction xs) (simp_all add: sorted_insertBy [OF assms])

lemma filter_insertBy:
  assumes "\<And>y. P x \<Longrightarrow> P y \<Longrightarrow> cmp x y \<le> (0::int)"
  shows "filter P (insertBy cmp x ys) = (if P x then x # filter P ys else filter P ys)"
  using assms by (induction ys) auto

lemma sortBy_stable:
  assumes "\<And>x y. P x \<Longrightarrow> P y \<Longrightarrow> cmp x y \<le> (0::int)"
  shows "filter P (sortBy cmp xs) = filter P xs"
  by (induction xs) (simp_all add: filter_insertBy [of P _ cmp, OF assms])

lemma codeUnitCompare_flip: "(codeUnitCompare x y < 0) = (0 < codeUnitCompare y x)"
proof (induction x y rule: codeUnitCompare.induct)
  case (4 x xs y ys)
  then show ?case
    by (cases "(of_char x :: nat) < of_char y"; cases "(of_char y :: nat) < of_char x") simp_all
qed simp_all

lemma codeUnitCompare_Cons_le:
  "(codeUnitCompare (x # xs) (y # ys) \<le> 0) =
     ((of_char x :: nat) < of_char y \<or> ((of_char x :: nat) = of_char y \<and> codeUnitCompare xs ys \<le> 0))"
  by (cases "(of_char x :: nat) < of_char y"; cases "(of_char y :: nat) < of_char x") auto

lemma codeUnitCompare_trans:
  "codeUnitCompare x y \<le> 0 \<Longrightarrow> codeUnitCompare y z \<le> 0 \<Longrightarrow> codeUnitCompare x z \<le> 0"
proof (induction x arbitrary: y z)
  case Nil
  then show ?case by (cases z) simp_all
next
  case (Cons a x)
  from Cons.prems(1) obtain b y' where y: "y = b # y'"
    by (cases y) simp_all
  from Cons.prems(2) y obtain c z' where z: "z = c # z'"
    by (cases z) simp_all
  from Cons.prems y z
  have ab: "(of_char a :: nat) < of_char b \<or> ((of_char a :: nat) = of_char b \<and> codeUnitCompare x y' \<le> 0)"
    and bc: "(of_char b :: nat) < of_char c \<or> ((of_char b :: nat) = of_char c \<and> codeUnitCompare y' z' \<le> 0)"
    by (simp_all only: codeUnitCompare_Cons_le)
  have "(of_char a :: nat) < of_char c \<or> ((of_char a :: nat) = of_char c \<and> codeUnitCompare x z' \<le> 0)"
  proof (cases "(of_char a :: nat) < of_char b \<or> (of_char b :: nat) < of_char c")
    case True
    with ab bc show ?thesis by linarith
  next
    case False
    with ab bc have "codeUnitCompare x y' \<le> 0" and "codeUnitCompare y' z' \<le> 0"
      and "(of_char a :: nat) = of_char c"
      by simp_all
    with Cons.IH [of y' z'] show ?thesis
      by simp
  qed
  then show ?case
    by (simp only: z codeUnitCompare_Cons_le)
qed

lemma collation_codeUnitCompare: "collation codeUnitCompare"
  unfolding collation_def
  using codeUnitCompare_flip codeUnitCompare_trans by blast

text \<open>
  Claim C2, as amended. For a \<open>localeCompare\<close> that is a collation, the comparator never
  puts two participants before each other; whenever it puts \<open>a\<close> before \<open>b\<close>, so does the
  order score descending, then completion time ascending (present before absent), then
  username ascending; and it puts one of the two first whenever they differ in score,
  in completion time or, both having none, in username. The leaderboard is the list of
  the room's participants sorted by it, and participants it does not separate stay in
  the order of the \<open>users\<close> map, so the leaderboard is determined by the room.
\<close>

theorem leaderboard_order:
  assumes "collation lc"
  shows "\<not> (before lc a b \<and> before lc b a)
     \<and> (before lc a b \<longrightarrow> spec_before lc a b)
     \<and> (separated lc a b \<longrightarrow> before lc a b \<or> before lc b a)
     \<and> sorted_wrt (\<lambda>x y. \<not> before lc y x) (leaderboardOf lc room)
     \<and> mset (leaderboardOf lc room) = mset (map leaderboardEntry (map snd (users room)))
     \<and> filter (\<lambda>x. \<not> before lc x a \<and> \<not> before lc a x) (leaderboardOf lc room) =
         filter (\<lambda>x. \<not> before lc x a \<and> \<not> before lc a x)
           (map leaderboardEntry (map snd (users room)))"
proof -
  let ?cmp = "leaderboardCompare lc"
  have le: "(\<not> before lc y x) = (?cmp x y \<le> 0)" for x y
    using compare_flip [OF assms, of y x] by (auto simp: before_def)
  have sorted: "sorted_wrt (\<lambda>x y. \<not> before lc y x) (leaderboardOf lc room)"
    unfolding le leaderboardOf_def
    by (rule sorted_sortBy) (use compare_total [OF assms] compare_trans [OF assms] in blast)+
  have perm: "mset (leaderboardOf lc room) = mset (map leaderboardEntry (map snd (users room)))"
    by (simp add: leaderboardOf_def mset_sortBy)
  have stable: "filter (\<lambda>x. \<not> before lc x a \<and> \<not> before lc a x) (leaderboardOf lc room) =
         filter (\<lambda>x. \<not> before lc x a \<and> \<not> before lc a x)
           (map leaderboardEntry (map snd (users room)))"
    unfolding leaderboardOf_def
  proof (rule sortBy_stable)
    fix x y
    assume "\<not> before lc x a \<and> \<not> before lc a x" and "\<not> before lc y a \<and> \<not> before lc a y"
    then have "?cmp x a \<le> 0" and "?cmp a y \<le> 0"
      by (simp_all add: le)
    then show "?cmp x y \<le> 0"
      by (rule compare_trans [OF assms])
  qed
  from before_asym [OF assms, of a b] before_spec [of lc a b] separated_before [OF assms, of a b]
    sorted perm stable
  show ?thesis
    by blast
qed



text \<open>
  The claim as stated, that of two distinct participants exactly one goes before the
  other, fails: two participants who joined under the same name and have not typed are
  tied, and so are Ann and Bob with equal scores and equal completion times, whom the
  order of the specification separates by name.
\<close>

theorem leaderboard_ties_counterexample:
  "leaderboardEntry (joined_at ''s1'' ''Ann'' 1000) \<noteq> leaderboardEntry (joined_at ''s2'' ''Ann'' 1000)
   \<and> \<not> before codeUnitCompare (leaderboardEntry (joined_at ''s1'' ''Ann'' 1000))
         (leaderboardEntry (joined_at ''s2'' ''Ann'' 1000))
   \<and> \<not> before codeUnitCompare (leaderboardEntry (joined_at ''s2'' ''Ann'' 1000))
         (leaderboardEntry (joined_at ''s1'' ''Ann'' 1000))
   \<and> spec_before codeUnitCompare (leaderboardEntry ann_done) (leaderboardEntry bob_done)
   \<and> \<not> before codeUnitCompare (leaderboardEntry ann_done) (leaderboardEntry bob_done)
   \<and> \<not> before codeUnitCompare (leaderboardEntry bob_done) (leaderboardEntry ann_done)"
  by (simp add: before_def spec_before_def finishedAt_def leaderboardCompare_def leaderboardEntry_def
      joined_at_def ann_done_def ann_typing_def ann_fresh_def bob_done_def or_null_def truthy_def
      number_of_def)

theorem leaderboard_order_witness:
  "collation codeUnitCompare
   \<and> before codeUnitCompare (leaderboardEntry ann_done) (leaderboardEntry (joined_at ''s2'' ''Bob'' 1000))
   \<and> spec_before codeUnitCompare (leaderboardEntry ann_done) (leaderboardEntry (joined_at ''s2'' ''Bob'' 1000))
   \<and> separated codeUnitCompare (leaderboardEntry ann_done) (leaderboardEntry (joined_at ''s2'' ''Bob'' 1000))
   \<and> \<not> before codeUnitCompare (leaderboardEntry (joined_at ''s2'' ''Bob'' 1000)) (leaderboardEntry ann_done)
   \<and> sorted_wrt (\<lambda>x y. \<not> before codeUnitCompare y x)
         (leaderboardOf codeUnitCompare
           \<lparr>roomId = ''RACE2345'', roomText = ''cat'',
            users = [(''s2'', joined_at ''s2'' ''Bob'' 1000), (''s1'', ann_done)],
            voiceParticipants = []\<rparr>)
   \<and> leaderboardOf codeUnitCompare
         \<lparr>roomId = ''RACE2345'', roomText = ''cat'',
          users = [(''s2'', joined_at ''s2'' ''Bob'' 1000), (''s1'', ann_done)],
          voiceParticipants = []\<rparr> =
       [leaderboardEntry ann_done, leaderboardEntry (joined_at ''s2'' ''Bob'' 1000)]"
proof -
  let ?a = "leaderboardEntry ann_done"
  let ?b = "leaderboardEntry (joined_at ''s2'' ''Bob'' 1000)"
  let ?room = "\<lparr>roomId = ''RACE2345'', roomText = ''cat'',
            users = [(''s2'', joined_at ''s2'' ''Bob'' 1000), (''s1'', ann_done)],
            voiceParticipants = []\<rparr>"
  note order = leaderboard_order [OF collation_codeUnitCompare, of ?a ?b ?room]
  have sep: "separated codeUnitCompare ?a ?b"
    by (simp add: separated_def leaderboardEntry_def ann_done_def ann_typing_def ann_fresh_def
        joined_at_def)
  with order have one: "before codeUnitCompare ?a ?b \<or> before codeUnitCompare ?b ?a"
    by blast
  have ab: "before codeUnitCompare ?a ?b"
    by (simp add: before_def leaderboardCompare_def leaderboardEntry_def ann_done_def ann_typing_def
        ann_fresh_def joined_at_def)
  with order have spec: "spec_before codeUnitCompare ?a ?b" and ba: "\<not> before codeUnitCompare ?b ?a"
    by blast+
  have board: "leaderboardOf codeUnitCompare ?room = [?a, ?b]"
    by (simp add: leaderboardOf_def leaderboardCompare_def leaderboardEntry_def ann_done_def
        ann_typing_def ann_fresh_def joined_at_def)
  from order collation_codeUnitCompare sep ab spec ba board show ?thesis
    by simp
qed

section \<open>Rounding\<close>

lemma bitlen_powi:
  assumes "0 < (a::int)"
  shows "(2::rat) powi (bitlen a - 1) \<le> of_int a" and "of_int a < (2::rat) powi bitlen a"
proof -
  from bitlen_bounds [OF assms] have lo: "2 ^ nat (bitlen a - 1) \<le> a" and hi: "a < 2 ^ nat (bitlen a)"
    by simp_all
  have pos: "1 \<le> bitlen a"
    using assms by (simp add: bitlen_alt_def)
  from lo have "(of_int (2 ^ nat (bitlen a - 1)) :: rat) \<le> of_int a"
    by (simp only: of_int_le_iff)
  with pos show "(2::rat) powi (bitlen a - 1) \<le> of_int a"
    by (simp add: power_int_nonneg_exp)
  from hi have "(of_int a :: rat) < of_int (2 ^ nat (bitlen a))"
    by (simp only: of_int_less_iff)
  with pos show "of_int a < (2::rat) powi bitlen a"
    by (simp add: power_int_nonneg_exp)
qed

lemma two_powi_diff: "(2::rat) powi m / 2 powi n = 2 powi (m - n)"
  by (simp add: power_int_diff)

lemma binade_bounds:
  assumes "0 < x"
  shows "2 powi binade x \<le> x" and "x < 2 powi (binade x + 1)"
proof -
  obtain a b where q: "quotient_of x = (a, b)"
    by (cases "quotient_of x")
  then have b: "0 < b" and x: "x = of_int a / of_int b"
    by (simp_all add: quotient_of_denom_pos quotient_of_div)
  with assms have a: "0 < a"
    by (simp add: zero_less_divide_iff)
  let ?e = "bitlen a - bitlen b"
  note A = bitlen_powi [OF a] and B = bitlen_powi [OF b]
  have bpos: "(0::rat) < of_int b"
    using b by simp
  have upper: "x < 2 powi (?e + 1)"
  proof -
    have "of_int a * (2::rat) powi (bitlen b - 1) < 2 powi bitlen a * of_int b"
      using A(2) B(1) a b
      by (intro mult_less_le_imp_less) simp_all
    then have "x * (2::rat) powi (bitlen b - 1) < 2 powi bitlen a"
      using bpos by (simp add: x field_simps)
    then have "x < 2 powi bitlen a / 2 powi (bitlen b - 1)"
      by (simp add: field_simps)
    also have "\<dots> = 2 powi (bitlen a - (bitlen b - 1))"
      by (rule two_powi_diff)
    also have "bitlen a - (bitlen b - 1) = ?e + 1"
      by simp
    finally show ?thesis .
  qed
  have lower: "2 powi (?e - 1) < x"
  proof -
    have "(2::rat) powi (bitlen a - 1) * of_int b < of_int a * 2 powi bitlen b"
      using A(1) B(2) a b
      by (intro mult_le_less_imp_less) simp_all
    then have "(2::rat) powi (bitlen a - 1) / 2 powi bitlen b < x"
      using bpos by (simp add: x field_simps)
    moreover have "(2::rat) powi (bitlen a - 1) / 2 powi bitlen b = 2 powi (bitlen a - 1 - bitlen b)"
      by (rule two_powi_diff)
    moreover have "bitlen a - 1 - bitlen b = ?e - 1"
      by simp
    ultimately show ?thesis by simp
  qed
  show "2 powi binade x \<le> x"
    using lower by (auto simp: binade_def q Let_def)
  show "x < 2 powi (binade x + 1)"
    using upper by (auto simp: binade_def q Let_def not_le)
qed

lemma binade_unique:
  assumes "0 < x" and "2 powi e \<le> x" and "x < 2 powi (e + 1)"
  shows "binade x = e"
proof -
  note b = binade_bounds [OF assms(1)]
  have "binade x < e + 1"
  proof (rule ccontr)
    assume "\<not> binade x < e + 1"
    then have "(2::rat) powi (e + 1) \<le> 2 powi binade x"
      by (intro power_int_increasing) simp_all
    with b(1) assms(3) show False by simp
  qed
  moreover have "e < binade x + 1"
  proof (rule ccontr)
    assume "\<not> e < binade x + 1"
    then have "(2::rat) powi (binade x + 1) \<le> 2 powi e"
      by (intro power_int_increasing) simp_all
    with b(2) assms(2) show False by simp
  qed
  ultimately show ?thesis by simp
qed

lemma round_ties_even_le: "x \<le> of_int n \<Longrightarrow> round_ties_even x \<le> n"
proof -
  assume le: "x \<le> of_int n"
  then have f: "\<lfloor>x\<rfloor> \<le> n"
    by (simp add: floor_le_iff)
  show ?thesis
  proof (cases "\<lfloor>x\<rfloor> = n")
    case True
    with le have "x = of_int n"
      using of_int_floor_le [of x] by simp
    then show ?thesis
      by (simp add: round_ties_even_def)
  next
    case False
    with f have "\<lfloor>x\<rfloor> + 1 \<le> n" by simp
    then show ?thesis
      by (auto simp: round_ties_even_def Let_def)
  qed
qed

lemma round_ties_even_ge: "of_int n \<le> x \<Longrightarrow> n \<le> round_ties_even x"
proof -
  assume "of_int n \<le> x"
  then have "n \<le> \<lfloor>x\<rfloor>"
    by (simp add: le_floor_iff)
  then show ?thesis
    by (auto simp: round_ties_even_def Let_def)
qed

lemma round_ties_even_above_half:
  assumes "of_int n + 1 / 2 < x"
  shows "n + 1 \<le> round_ties_even x"
proof -
  from assms have "of_int n \<le> x" by simp
  then have f: "n \<le> \<lfloor>x\<rfloor>"
    by (simp add: le_floor_iff)
  show ?thesis
  proof (cases "\<lfloor>x\<rfloor> = n")
    case True
    with assms have "1 / 2 < x - of_int \<lfloor>x\<rfloor>" by simp
    with True show ?thesis
      by (simp add: round_ties_even_def Let_def)
  next
    case False
    with f have "n + 1 \<le> \<lfloor>x\<rfloor>" by simp
    then show ?thesis
      by (auto simp: round_ties_even_def Let_def)
  qed
qed

lemma round_ties_even_error: "\<bar>of_int (round_ties_even x) - x\<bar> \<le> 1 / 2"
proof -
  have "of_int \<lfloor>x\<rfloor> \<le> x" and "x < of_int \<lfloor>x\<rfloor> + 1"
    by linarith+
  then show ?thesis
    by (auto simp: round_ties_even_def Let_def abs_le_iff)
qed

lemma double_of_pos_eq:
  "0 < x \<Longrightarrow>
   double_of x = of_int (round_ties_even (x / 2 powi (binade x - 52))) * 2 powi (binade x - 52)"
  by (simp add: double_of_def Let_def)

lemma ulp_scaled:
  "(2::rat) powi (e - 52) * of_int (2 ^ 52) = 2 powi e"
  "(2::rat) powi (e - 52) * of_int (2 ^ 53) = 2 powi (e + 1)"
proof -
  have "(2::rat) powi (e - 52) * 2 powi 52 = 2 powi (e - 52 + 52)"
    by (subst power_int_add) simp_all
  then show "(2::rat) powi (e - 52) * of_int (2 ^ 52) = 2 powi e"
    by simp
  have "(2::rat) powi (e - 52) * 2 powi 53 = 2 powi (e - 52 + 53)"
    by (subst power_int_add) simp_all
  then show "(2::rat) powi (e - 52) * of_int (2 ^ 53) = 2 powi (e + 1)"
    by (simp add: add.commute)
qed

lemma double_of_ge_binade:
  assumes "0 < x"
  shows "2 powi binade x \<le> double_of x"
proof -
  define u :: rat where "u = 2 powi (binade x - 52)"
  define N :: int where "N = 2 ^ 52"
  have u: "0 < u" by (simp add: u_def)
  have scaled: "u * of_int N = 2 powi binade x"
    unfolding u_def N_def by (rule ulp_scaled(1))
  with binade_bounds(1) [OF assms] have "of_int N * u \<le> x"
    by (simp add: mult.commute)
  then have "of_int N \<le> x / u"
    using u by (simp add: pos_le_divide_eq)
  then have "N \<le> round_ties_even (x / u)"
    by (rule round_ties_even_ge)
  then have "(of_int N :: rat) \<le> of_int (round_ties_even (x / u))"
    by (simp only: of_int_le_iff)
  then have "u * of_int N \<le> u * of_int (round_ties_even (x / u))"
    using u by (intro mult_left_mono) simp_all
  also have "u * of_int (round_ties_even (x / u)) = double_of x"
    by (simp add: double_of_pos_eq [OF assms] u_def mult.commute)
  finally show ?thesis
    by (simp only: scaled)
qed

lemma double_of_le_binade:
  assumes "0 < x"
  shows "double_of x \<le> 2 powi (binade x + 1)"
proof -
  define u :: rat where "u = 2 powi (binade x - 52)"
  define N :: int where "N = 2 ^ 53"
  have u: "0 < u" by (simp add: u_def)
  have scaled: "u * of_int N = 2 powi (binade x + 1)"
    unfolding u_def N_def by (rule ulp_scaled(2))
  with binade_bounds(2) [OF assms] have "x \<le> of_int N * u"
    by (simp add: mult.commute)
  then have "x / u \<le> of_int N"
    using u by (simp add: pos_divide_le_eq)
  then have "round_ties_even (x / u) \<le> N"
    by (rule round_ties_even_le)
  then have "(of_int (round_ties_even (x / u)) :: rat) \<le> of_int N"
    by (simp only: of_int_le_iff)
  then have "u * of_int (round_ties_even (x / u)) \<le> u * of_int N"
    using u by (intro mult_left_mono) simp_all
  moreover have "u * of_int (round_ties_even (x / u)) = double_of x"
    by (simp add: double_of_pos_eq [OF assms] u_def mult.commute)
  ultimately show ?thesis
    by (simp only: scaled)
qed

lemma double_of_error:
  assumes "0 < x"
  shows "\<bar>double_of x - x\<bar> \<le> x / 2 ^ 53"
proof -
  define u :: rat where "u = 2 powi (binade x - 52)"
  have u: "0 < u" by (simp add: u_def)
  have "double_of x - x = (of_int (round_ties_even (x / u)) - x / u) * u"
    using u by (simp add: double_of_pos_eq [OF assms] u_def [symmetric] left_diff_distrib)
  then have "\<bar>double_of x - x\<bar> = \<bar>of_int (round_ties_even (x / u)) - x / u\<bar> * u"
    using u by (simp add: abs_mult)
  also have "\<dots> \<le> 1 / 2 * u"
    using round_ties_even_error [of "x / u"] u by (intro mult_right_mono) simp_all
  also have "1 / 2 * u = 2 powi binade x / 2 ^ 53"
  proof -
    have "u * of_int (2 ^ 52) = 2 powi binade x"
      unfolding u_def by (rule ulp_scaled(1))
    then show ?thesis
      by (simp add: field_simps)
  qed
  also have "\<dots> \<le> x / 2 ^ 53"
    using binade_bounds(1) [OF assms] by (simp add: divide_right_mono)
  finally show ?thesis .
qed

lemma binade_8_16:
  assumes "8 \<le> x" and "x < 16"
  shows "binade x = 3"
proof (rule binade_unique)
  show "0 < x" using assms(1) by simp
  show "2 powi 3 \<le> x" using assms(1) by simp
  show "x < 2 powi (3 + 1)" using assms(2) by simp
qed

lemma double_of_8_16:
  assumes "8 \<le> x" and "x < 16"
  shows "double_of x = of_int (round_ties_even (x * 2 ^ 49)) / 2 ^ 49"
proof -
  have "0 < x" using assms(1) by simp
  moreover have "(2::rat) powi (3 - 52) = 1 / 2 ^ 49"
    by (simp add: power_int_minus_divide)
  ultimately show ?thesis
    by (simp add: double_of_pos_eq binade_8_16 [OF assms])
qed

lemma double_of_le_15:
  assumes "0 \<le> q" and "q \<le> 15"
  shows "double_of q \<le> 15"
proof (cases "8 \<le> q")
  case True
  with assms have eq: "double_of q = of_int (round_ties_even (q * 2 ^ 49)) / 2 ^ 49"
    by (intro double_of_8_16) simp_all
  define N :: int where "N = 15 * 2 ^ 49"
  have "q * 2 ^ 49 \<le> of_int N"
    using assms(2) by (simp add: N_def)
  then have "round_ties_even (q * 2 ^ 49) \<le> N"
    by (rule round_ties_even_le)
  then have "(of_int (round_ties_even (q * 2 ^ 49)) :: rat) \<le> of_int N"
    by (simp only: of_int_le_iff)
  then have "double_of q \<le> of_int N / 2 ^ 49"
    unfolding eq by (intro divide_right_mono) simp_all
  then show ?thesis
    by (simp add: N_def)
next
  case False
  show ?thesis
  proof (cases "q = 0")
    case True
    then show ?thesis by (simp add: double_of_def)
  next
    case nonzero: False
    with assms(1) have pos: "0 < q" by simp
    have "binade q < 3"
    proof (rule ccontr)
      assume "\<not> binade q < 3"
      then have "(2::rat) powi 3 \<le> 2 powi binade q"
        by (intro power_int_increasing) simp_all
      with binade_bounds(1) [OF pos] False show False by simp
    qed
    then have "(2::rat) powi (binade q + 1) \<le> 2 powi 3"
      by (intro power_int_increasing) simp_all
    with double_of_le_binade [OF pos] show ?thesis by simp
  qed
qed

lemma double_of_gt_15:
  assumes "15 + 1 / 2 ^ 50 < q"
  shows "15 < double_of q"
proof (cases "q < 16")
  case True
  with assms have eq: "double_of q = of_int (round_ties_even (q * 2 ^ 49)) / 2 ^ 49"
    by (intro double_of_8_16) simp_all
  define N :: int where "N = 15 * 2 ^ 49"
  have "of_int N + 1 / 2 < q * 2 ^ 49"
    using assms by (simp add: N_def field_simps)
  then have "N + 1 \<le> round_ties_even (q * 2 ^ 49)"
    by (rule round_ties_even_above_half)
  then have "(of_int (N + 1) :: rat) \<le> of_int (round_ties_even (q * 2 ^ 49))"
    by (simp only: of_int_le_iff)
  then have "of_int (N + 1) / 2 ^ 49 \<le> double_of q"
    unfolding eq by (intro divide_right_mono) simp_all
  moreover have "(15::rat) < of_int (N + 1) / 2 ^ 49"
    by (simp add: N_def)
  ultimately show ?thesis by simp
next
  case False
  then have pos: "0 < q" by simp
  have "3 < binade q"
  proof (rule ccontr)
    assume "\<not> 3 < binade q"
    then have "(2::rat) powi (binade q + 1) \<le> 2 powi 4"
      by (intro power_int_increasing) simp_all
    with binade_bounds(2) [OF pos] False show False by simp
  qed
  then have "(2::rat) powi 4 \<le> 2 powi binade q"
    by (intro power_int_increasing) simp_all
  with double_of_ge_binade [OF pos] show ?thesis by simp
qed

section \<open>The speed check\<close>

lemma tooFast_nonpositive: "timeDelta \<le> 0 \<Longrightarrow> \<not> tooFast lengthDelta timeDelta"
  by (simp add: tooFast_def)

lemma seconds_rounded:
  assumes "0 < (timeDelta::int)"
  defines "t \<equiv> (of_int timeDelta :: rat) / 1000"
  shows "0 < js_divide (of_int timeDelta) 1000"
    and "js_divide (of_int timeDelta) 1000 \<le> t * (1 + 1 / 2 ^ 53)"
    and "t * (1 - 1 / 2 ^ 53) \<le> js_divide (of_int timeDelta) 1000"
proof -
  have t: "0 < t"
    using assms(1) by (simp add: t_def)
  have x: "js_divide (of_int timeDelta) 1000 = double_of t"
    by (simp add: js_divide_def t_def)
  define d :: rat where "d = 1 / 2 ^ 53"
  from double_of_error [OF t] have "\<bar>double_of t - t\<bar> \<le> t * d"
    by (simp add: d_def)
  then have up: "double_of t - t \<le> t * d" and down: "t - double_of t \<le> t * d"
    by (simp_all add: abs_le_iff)
  from up have "double_of t \<le> t * (1 + d)"
    by (simp add: algebra_simps)
  then show "js_divide (of_int timeDelta) 1000 \<le> t * (1 + 1 / 2 ^ 53)"
    by (simp only: x d_def)
  from down have "t * (1 - d) \<le> double_of t"
    by (simp add: algebra_simps)
  then show low: "t * (1 - 1 / 2 ^ 53) \<le> js_divide (of_int timeDelta) 1000"
    by (simp only: x d_def)
  have "0 < t * (1 - 1 / 2 ^ 53)"
    using t by simp
  with low show "0 < js_divide (of_int timeDelta) 1000"
    by simp
qed

lemma tooFast_above:
  assumes "0 < timeDelta" and "timeDelta < 2 ^ 48" and "15 * timeDelta < 1000 * \<bar>lengthDelta\<bar>"
  shows "tooFast lengthDelta timeDelta"
proof -
  define t :: rat where "t = of_int timeDelta / 1000"
  define x where "x = js_divide (of_int timeDelta) 1000"
  define l :: rat where "l = of_int \<bar>lengthDelta\<bar>"
  define k :: rat where "k = (15 + 1 / 2 ^ 50) * (1 + 1 / 2 ^ 53)"
  note r = seconds_rounded [OF assms(1), folded t_def x_def]
  have t: "0 < t"
    using assms(1) by (simp add: t_def)
  have "(15 + 1 / 2 ^ 50) * x \<le> (15 + 1 / 2 ^ 50) * (t * (1 + 1 / 2 ^ 53))"
    using r(2) by (intro mult_left_mono) simp_all
  then have step: "(15 + 1 / 2 ^ 50) * x \<le> k * t"
    by (simp add: k_def mult.assoc mult.left_commute)
  have small: "k - 15 \<le> 1 / 2 ^ 48"
    by (simp add: k_def)
  have "(k - 15) * of_int timeDelta \<le> 1 / 2 ^ 48 * of_int timeDelta"
    using small assms(1) by (intro mult_right_mono) simp_all
  also have "\<dots> < 1"
  proof -
    have "(of_int timeDelta :: rat) < of_int (2 ^ 48)"
      using assms(2) by (simp only: of_int_less_iff)
    then show ?thesis by simp
  qed
  finally have "k * of_int timeDelta < 15 * of_int timeDelta + 1"
    by (simp add: algebra_simps)
  moreover have "15 * (of_int timeDelta :: rat) + 1 \<le> 1000 * l"
  proof -
    from assms(3) have "15 * timeDelta + 1 \<le> 1000 * \<bar>lengthDelta\<bar>"
      by simp
    then have "(of_int (15 * timeDelta + 1) :: rat) \<le> of_int (1000 * \<bar>lengthDelta\<bar>)"
      by (simp only: of_int_le_iff)
    then show ?thesis
      by (simp add: l_def)
  qed
  ultimately have "k * of_int timeDelta < 1000 * l"
    by simp
  then have "k * t < l"
    by (simp add: t_def)
  with step have "(15 + 1 / 2 ^ 50) * x < l"
    by simp
  then have "15 + 1 / 2 ^ 50 < l / x"
    using r(1) by (simp add: pos_less_divide_eq)
  then have "15 < double_of (l / x)"
    by (rule double_of_gt_15)
  then have "15 < js_divide l x"
    by (simp add: js_divide_def)
  with assms(1) show ?thesis
    by (simp add: tooFast_def l_def x_def)
qed

lemma tooFast_below:
  assumes "0 < timeDelta" and "timeDelta < 2 ^ 48" and "1000 * \<bar>lengthDelta\<bar> < 15 * timeDelta"
  shows "\<not> tooFast lengthDelta timeDelta"
proof -
  define t :: rat where "t = of_int timeDelta / 1000"
  define x where "x = js_divide (of_int timeDelta) 1000"
  define l :: rat where "l = of_int \<bar>lengthDelta\<bar>"
  note r = seconds_rounded [OF assms(1), folded t_def x_def]
  have l: "0 \<le> l"
    by (simp add: l_def)
  have "15 * (of_int timeDelta :: rat) / 2 ^ 53 \<le> 1"
  proof -
    from assms(2) have "timeDelta \<le> 2 ^ 48"
      by simp
    then have "(of_int timeDelta :: rat) \<le> of_int (2 ^ 48)"
      by (simp only: of_int_le_iff)
    then show ?thesis by simp
  qed
  moreover have "1000 * l \<le> 15 * (of_int timeDelta :: rat) - 1"
  proof -
    from assms(3) have "1000 * \<bar>lengthDelta\<bar> \<le> 15 * timeDelta - 1"
      by simp
    then have "(of_int (1000 * \<bar>lengthDelta\<bar>) :: rat) \<le> of_int (15 * timeDelta - 1)"
      by (simp only: of_int_le_iff)
    then show ?thesis
      by (simp add: l_def)
  qed
  ultimately have "1000 * l \<le> 15 * (of_int timeDelta * (1 - 1 / 2 ^ 53))"
    by (simp add: algebra_simps)
  then have "l \<le> 15 * (t * (1 - 1 / 2 ^ 53))"
    by (simp add: t_def)
  also have "\<dots> \<le> 15 * x"
    using r(3) by (intro mult_left_mono) simp_all
  finally have "l / x \<le> 15"
    using r(1) by (simp add: pos_divide_le_eq mult.commute)
  moreover have "0 \<le> l / x"
    using l r(1) by simp
  ultimately have "double_of (l / x) \<le> 15"
    by (intro double_of_le_15)
  then have "\<not> 15 < js_divide l x"
    by (simp add: js_divide_def)
  then show ?thesis
    by (simp add: tooFast_def l_def x_def)
qed

lemma exactRate_above:
  "0 < timeDelta \<Longrightarrow> (15 < exactRate lengthDelta timeDelta) = (15 * timeDelta < 1000 * \<bar>lengthDelta\<bar>)"
proof -
  assume pos: "0 < timeDelta"
  have "(15 < exactRate lengthDelta timeDelta) =
          ((of_int (15 * timeDelta) :: rat) < of_int (1000 * \<bar>lengthDelta\<bar>))"
    using pos by (simp add: exactRate_def pos_less_divide_eq field_simps)
  then show ?thesis
    by (simp only: of_int_less_iff)
qed

lemma exactRate_below:
  "0 < timeDelta \<Longrightarrow> (exactRate lengthDelta timeDelta < 15) = (1000 * \<bar>lengthDelta\<bar> < 15 * timeDelta)"
proof -
  assume pos: "0 < timeDelta"
  have "(exactRate lengthDelta timeDelta < 15) =
          ((of_int (1000 * \<bar>lengthDelta\<bar>) :: rat) < of_int (15 * timeDelta))"
    using pos by (simp add: exactRate_def pos_divide_less_eq field_simps)
  then show ?thesis
    by (simp only: of_int_less_iff)
qed

text \<open>
  Claim C7, as amended. On an update of a participant who is not terminal,
  \<open>paste-detected\<close> is among the flags afterwards exactly when it was before, or the
  caller hints a paste and the length delta is at least 10, or there is no hint, the
  delta is at least 10 and less than 400 ms have passed since \<open>lastUpdateAt\<close>, or the
  caller reports a delta of at least 10. \<open>speed-warning\<close> is among them exactly when it
  was before, or a positive time has passed and the quotient of the absolute length
  delta by the seconds passed, both divisions rounded as JavaScript rounds them,
  exceeds 15: it is added whenever the exact rate exceeds 15 characters per second, and
  is not added when the exact rate is below 15 or no positive time has passed (for any
  time below \<open>2 ^ 48\<close> ms). The flags after the update are the flags before it with
  new ones appended, and a participant who joins again keeps them.
\<close>

theorem flags_added_by_update:
  assumes "participantOf st socket = Some user" and "\<not> terminal user"
    and "normalizeRoomId (jp_roomId jp) = roomOf st socket"
    and "sanitizeUsername (jp_username jp) = Some name"
  shows "\<exists>user' rejoined.
           participantOf (fst (handleTypingUpdate lc st socket p now)) socket = Some user'
         \<and> (''paste-detected'' \<in> set (flags user') \<longleftrightarrow>
              ''paste-detected'' \<in> set (flags user)
              \<or> (tu_isPaste p
                  \<and> 10 \<le> int (length (safeValueOf (promptOf st socket) p)) - int (lastInputLength user))
              \<or> (\<not> tu_isPaste p
                  \<and> 10 \<le> int (length (safeValueOf (promptOf st socket) p)) - int (lastInputLength user)
                  \<and> now - lastUpdateAt user < 400)
              \<or> (case tu_delta p of None \<Rightarrow> False | Some d \<Rightarrow> 10 \<le> d))
         \<and> (''speed-warning'' \<in> set (flags user') \<longleftrightarrow>
              ''speed-warning'' \<in> set (flags user)
              \<or> (0 < now - lastUpdateAt user
                  \<and> 15 < js_divide
                            (of_int \<bar>int (length (safeValueOf (promptOf st socket) p))
                                      - int (lastInputLength user)\<bar>)
                            (js_divide (of_int (now - lastUpdateAt user)) 1000)))
         \<and> (0 < now - lastUpdateAt user \<and> now - lastUpdateAt user < 2 ^ 48
              \<and> 15 < exactRate (int (length (safeValueOf (promptOf st socket) p))
                                   - int (lastInputLength user)) (now - lastUpdateAt user)
              \<longrightarrow> ''speed-warning'' \<in> set (flags user'))
         \<and> (''speed-warning'' \<notin> set (flags user)
              \<and> (now - lastUpdateAt user \<le> 0
                  \<or> (now - lastUpdateAt user < 2 ^ 48
                      \<and> exactRate (int (length (safeValueOf (promptOf st socket) p))
                                     - int (lastInputLength user)) (now - lastUpdateAt user) < 15))
              \<longrightarrow> ''speed-warning'' \<notin> set (flags user'))
         \<and> (\<exists>added. flags user' = flags user @ added)
         \<and> participantOf (fst (handleJoinTypingRoom lc st socket jp joinTime)) socket = Some rejoined
         \<and> flags rejoined = flags user"
proof -
  let ?txt = "promptOf st socket"
  let ?user' = "fst (applyTypingUpdate ?txt user p now)"
  let ?ld = "int (length (safeValueOf ?txt p)) - int (lastInputLength user)"
  let ?td = "now - lastUpdateAt user"
  have after: "participantOf (fst (handleTypingUpdate lc st socket p now)) socket = Some ?user'"
    by (rule update_after(1) [OF assms(1,2)])
  have paste: "''paste-detected'' \<in> set (flags ?user') \<longleftrightarrow>
              ''paste-detected'' \<in> set (flags user)
              \<or> (tu_isPaste p \<and> 10 \<le> ?ld)
              \<or> (\<not> tu_isPaste p \<and> 10 \<le> ?ld \<and> ?td < 400)
              \<or> (case tu_delta p of None \<Rightarrow> False | Some d \<Rightarrow> 10 \<le> d)"
    by (auto simp: applyTypingUpdate_flag_iff pasteSuspected_def deltaReported_def)
  have speed: "''speed-warning'' \<in> set (flags ?user') \<longleftrightarrow>
              ''speed-warning'' \<in> set (flags user) \<or> tooFast ?ld ?td"
    by (simp add: applyTypingUpdate_flag_iff)
  have code: "tooFast ?ld ?td =
      (0 < ?td \<and> 15 < js_divide (of_int \<bar>?ld\<bar>) (js_divide (of_int ?td) 1000))"
    by (auto simp: tooFast_def)
  have above: "0 < ?td \<and> ?td < 2 ^ 48 \<and> 15 < exactRate ?ld ?td \<longrightarrow> ''speed-warning'' \<in> set (flags ?user')"
  proof
    assume a: "0 < ?td \<and> ?td < 2 ^ 48 \<and> 15 < exactRate ?ld ?td"
    then have a1: "0 < ?td" and a2: "?td < 2 ^ 48" and a3: "15 < exactRate ?ld ?td"
      by blast+
    from a3 have "15 * ?td < 1000 * \<bar>?ld\<bar>"
      by (simp only: exactRate_above [OF a1])
    with a1 a2 have "tooFast ?ld ?td"
      by (rule tooFast_above)
    with speed show "''speed-warning'' \<in> set (flags ?user')"
      by simp
  qed
  have below: "''speed-warning'' \<notin> set (flags user)
              \<and> (?td \<le> 0 \<or> (?td < 2 ^ 48 \<and> exactRate ?ld ?td < 15))
              \<longrightarrow> ''speed-warning'' \<notin> set (flags ?user')"
  proof
    assume b: "''speed-warning'' \<notin> set (flags user)
              \<and> (?td \<le> 0 \<or> (?td < 2 ^ 48 \<and> exactRate ?ld ?td < 15))"
    have "\<not> tooFast ?ld ?td"
    proof (cases "?td \<le> 0")
      case True
      then show ?thesis by (rule tooFast_nonpositive)
    next
      case False
      with b have b1: "0 < ?td" and b2: "?td < 2 ^ 48" and b3: "exactRate ?ld ?td < 15"
        by linarith+
      from b3 have "1000 * \<bar>?ld\<bar> < 15 * ?td"
        by (simp only: exactRate_below [OF b1])
      with b1 b2 show ?thesis
        by (rule tooFast_below)
    qed
    with b speed show "''speed-warning'' \<notin> set (flags ?user')"
      by simp
  qed
  have kept: "\<exists>added. flags ?user' = flags user @ added"
    by (rule applyTypingUpdate_flags_extend)
  from assms(1) obtain r room where ctx: "typingSocketRoomMap st socket = Some r" "r \<noteq> []"
      "typingRooms st r = Some room" "map_of (users room) socket = Some user"
    by (rule participantOf_SomeD)
  from ctx(1) assms(3) have "normalizeRoomId (jp_roomId jp) = r"
    by (simp add: roomOf_def)
  from join_after [OF this ctx(2,3) assms(4), of lc socket joinTime] ctx(4)
  obtain u where rejoin: "participantOf (fst (handleJoinTypingRoom lc st socket jp joinTime)) socket = Some u"
      "flags u = flags user"
    by auto
  from after paste speed [unfolded code] above below kept rejoin show ?thesis
    by blast
qed

text \<open>
  The claim as stated, that \<open>speed-warning\<close> is added exactly when the rate exceeds 15,
  fails where the rate is exactly 15: for 21 characters in 1400 ms the two rounded
  divisions give \<open>15 + 2 ^ -49\<close>, and the flag is added.
\<close>

theorem speed_warning_at_rate_15_counterexample:
  "exactRate (int (length ''the quick brown fox j'') - int (lastInputLength ann_fresh))
     (2400 - lastUpdateAt ann_fresh) = 15
   \<and> map_option flags (participantOf (race_state ''the quick brown fox jumps'' ann_fresh) ''s1'') =
       Some []
   \<and> map_option flags
         (participantOf (fst (handleTypingUpdate codeUnitCompare
            (race_state ''the quick brown fox jumps'' ann_fresh) ''s1''
            (input_of ''the quick brown fox j'') 2400)) ''s1'') =
       Some [''speed-warning'']"
proof -
  have fresh: "\<not> terminal ann_fresh"
    by (simp add: terminal_def ann_fresh_def joined_at_def)
  have fast: "tooFast 21 1400"
    by code_simp
  have rate: "exactRate (int (length ''the quick brown fox j'') - int (lastInputLength ann_fresh))
     (2400 - lastUpdateAt ann_fresh) = 15"
    by (simp add: exactRate_def ann_fresh_def joined_at_def)
  have before: "map_option flags (participantOf (race_state ''the quick brown fox jumps'' ann_fresh) ''s1'') =
       Some []"
    by (simp add: race_state_participant ann_fresh_def joined_at_def)
  have "flags (fst (applyTypingUpdate ''the quick brown fox jumps'' ann_fresh
                (input_of ''the quick brown fox j'') 2400)) = [''speed-warning'']"
    using fast
    by (simp add: applyTypingUpdate_flags safeValueOf_def rawValueOf_def input_of_def ann_fresh_def
        joined_at_def pasteSuspected_def deltaReported_def flagUser_def)
  with update_after(1) [where st = "race_state ''the quick brown fox jumps'' ann_fresh"
      and lc = codeUnitCompare and p = "input_of ''the quick brown fox j''" and now = 2400,
      OF race_state_participant fresh]
  have after: "map_option flags
         (participantOf (fst (handleTypingUpdate codeUnitCompare
            (race_state ''the quick brown fox jumps'' ann_fresh) ''s1''
            (input_of ''the quick brown fox j'') 2400)) ''s1'') =
       Some [''speed-warning'']"
    by (simp add: race_state_reads)
  from rate before after show ?thesis
    by blast
qed

theorem flags_added_by_update_witness:
  "(\<exists>user'. participantOf (fst (handleTypingUpdate codeUnitCompare (race_state ''cat'' ann_fresh) ''s1''
                 (input_of ''catss'') 1100)) ''s1'' = Some user'
       \<and> ''speed-warning'' \<in> set (flags user') \<and> ''paste-detected'' \<notin> set (flags user'))
   \<and> (\<exists>user'. participantOf (fst (handleTypingUpdate codeUnitCompare (race_state ''cat'' ann_fresh) ''s1''
                 (input_of ''c'') 2000)) ''s1'' = Some user'
       \<and> ''speed-warning'' \<notin> set (flags user') \<and> ''paste-detected'' \<notin> set (flags user'))
   \<and> (\<exists>user'. participantOf (fst (handleTypingUpdate codeUnitCompare
                 (race_state ''the quick brown fox jumps'' ann_fresh) ''s1''
                 \<lparr>tu_value = Some ''the quick brown'', tu_isPaste = True, tu_delta = Some 15\<rparr> 9000)) ''s1''
          = Some user'
       \<and> ''paste-detected'' \<in> set (flags user') \<and> ''speed-warning'' \<notin> set (flags user'))
   \<and> (\<exists>rejoined. participantOf (fst (handleJoinTypingRoom codeUnitCompare (race_state ''cat'' ann_fresh)
                 ''s1'' \<lparr>jp_roomId = Some ''race2345'', jp_username = Some ''Annie''\<rparr> 5000)) ''s1''
          = Some rejoined
       \<and> flags rejoined = flags ann_fresh)"
proof -
  let ?jp = "\<lparr>jp_roomId = Some ''race2345'', jp_username = Some ''Annie''\<rparr>"
  have fresh: "\<not> terminal ann_fresh"
    by (simp add: terminal_def ann_fresh_def joined_at_def)
  have room: "normalizeRoomId (jp_roomId ?jp) = roomOf (race_state prompt ann_fresh) ''s1''" for prompt
  proof -
    have "normalizeRoomId (jp_roomId ?jp) = ''RACE2345''"
      by code_simp
    then show ?thesis
      by (simp only: race_state_reads)
  qed
  have name: "sanitizeUsername (jp_username ?jp) = Some ''Annie''"
    by code_simp
  have facts: "flags ann_fresh = []" "lastInputLength ann_fresh = 0" "lastUpdateAt ann_fresh = 1000"
    by (simp_all add: ann_fresh_def joined_at_def)
  note fast = flags_added_by_update [where st = "race_state ''cat'' ann_fresh" and lc = codeUnitCompare
      and p = "input_of ''catss''" and now = 1100 and joinTime = 5000,
      OF race_state_participant fresh room name]
  note slow = flags_added_by_update [where st = "race_state ''cat'' ann_fresh" and lc = codeUnitCompare
      and p = "input_of ''c''" and now = 2000 and joinTime = 5000,
      OF race_state_participant fresh room name]
  note paste = flags_added_by_update [where st = "race_state ''the quick brown fox jumps'' ann_fresh"
      and lc = codeUnitCompare
      and p = "\<lparr>tu_value = Some ''the quick brown'', tu_isPaste = True, tu_delta = Some 15\<rparr>"
      and now = 9000 and joinTime = 5000,
      OF race_state_participant fresh room name]
  have a: "\<exists>user'. participantOf (fst (handleTypingUpdate codeUnitCompare (race_state ''cat'' ann_fresh) ''s1''
                 (input_of ''catss'') 1100)) ''s1'' = Some user'
       \<and> ''speed-warning'' \<in> set (flags user') \<and> ''paste-detected'' \<notin> set (flags user')"
    using fast
    by (simp add: race_state_reads facts safeValueOf_def rawValueOf_def input_of_def exactRate_def) blast
  have b: "\<exists>user'. participantOf (fst (handleTypingUpdate codeUnitCompare (race_state ''cat'' ann_fresh) ''s1''
                 (input_of ''c'') 2000)) ''s1'' = Some user'
       \<and> ''speed-warning'' \<notin> set (flags user') \<and> ''paste-detected'' \<notin> set (flags user')"
    using slow
    by (simp add: race_state_reads facts safeValueOf_def rawValueOf_def input_of_def exactRate_def) blast
  have c: "\<exists>user'. participantOf (fst (handleTypingUpdate codeUnitCompare
                 (race_state ''the quick brown fox jumps'' ann_fresh) ''s1''
                 \<lparr>tu_value = Some ''the quick brown'', tu_isPaste = True, tu_delta = Some 15\<rparr> 9000)) ''s1''
          = Some user'
       \<and> ''paste-detected'' \<in> set (flags user') \<and> ''speed-warning'' \<notin> set (flags user')"
    using paste
    by (simp add: race_state_reads facts safeValueOf_def rawValueOf_def exactRate_def) blast
  have d: "\<exists>rejoined. participantOf (fst (handleJoinTypingRoom codeUnitCompare (race_state ''cat'' ann_fresh)
                 ''s1'' ?jp 5000)) ''s1'' = Some rejoined
       \<and> flags rejoined = flags ann_fresh"
    using fast by blast
  from a b c d show ?thesis
    by blast
qed

end
